theory Spec2Isabelle
  imports Main
begin

section \<open>Data model\<close>

text \<open>
  The tables of the attendance tracker, as the TypeScript sources read and write them.
  Timestamps are integers (milliseconds since the epoch, what \<^verbatim>\<open>Date.now()\<close> returns);
  identifiers and secrets are strings. Each operation reads the clock once (\<open>now\<close>).
  The relational store is modelled as plain tables with the primary key of \<open>sessions\<close> and
  the unique key \<open>(session_id, student_id)\<close> of \<open>attendance\<close>; the row-level policies,
  column grants and triggers of the database are not part of the model.
\<close>

datatype session_status = Active | Ended

datatype attendance_status = Present | Pending | Absent | Rejected

record session_row =
  s_id :: string
  s_class_id :: string
  s_teacher_id :: string
  s_start_time :: int
  s_end_time :: int
  s_extended :: bool
  s_qr_secret :: string
  s_status :: session_status
  s_notifications_sent :: "bool option"

text \<open>
  An attendance row carries the columns the check-in code touches. Its \<open>id\<close> column is
  left out: the only use of it, \<^verbatim>\<open>.eq('id', existingAttendance.id)\<close>, addresses the one row
  that \<^verbatim>\<open>.single()\<close> has just returned for \<open>(student_id, session_id)\<close>. The column
  \<open>face_score\<close>, to which the code only ever writes \<^verbatim>\<open>null\<close>, is left out as well.
\<close>

record attendance_row =
  a_session_id :: string
  a_student_id :: string
  a_status :: attendance_status
  a_checkin_time :: "int option"
  a_liveness :: "bool option"
  a_photo_url :: "string option"

text \<open>An enrollment row, joined with the e-mail address of the student's profile.\<close>

record enrollment_row =
  e_class_id :: string
  e_student_id :: string
  e_roll_number :: "string option"
  e_email :: "string option"

record store =
  sessions :: "session_row list"
  attendance :: "attendance_row list"
  enrollments :: "enrollment_row list"
  files :: "string list"

text \<open>The errors thrown by \<^verbatim>\<open>src/lib/api.ts\<close>, one constructor per message.\<close>

datatype error =
    SessionCannotBeExtended
  | FailedToReactivateSession
  | InvalidTokenFormat
  | TypeError
  | TokenMissingSessionID
  | SessionNotFoundOrExpired
  | InvalidQRToken
  | SessionHasEnded
  | FailedToCheckAttendanceStatus
  | FailedToCreateAttendanceRecord
  | AlreadyMarkedPresent
  | NoAttendanceRecordFoundToUpdate
  | StoreError

subsection \<open>Query results\<close>

text \<open>
  \<^verbatim>\<open>.single()\<close> yields the row when the query returns exactly one row and an error (with
  \<^verbatim>\<open>data = null\<close>) otherwise; \<^verbatim>\<open>.maybeSingle()\<close> yields \<^verbatim>\<open>null\<close> without an error for
  no row, the row for one, and an error for more than one.
\<close>

definition single :: "'a list \<Rightarrow> 'a option" where
  "single rows = (case rows of [x] \<Rightarrow> Some x | _ \<Rightarrow> None)"

definition maybeSingle :: "'a list \<Rightarrow> error + 'a option" where
  "maybeSingle rows =
     (case rows of [] \<Rightarrow> Inr None | [x] \<Rightarrow> Inr (Some x) | _ \<Rightarrow> Inl StoreError)"

section \<open>JSON values and the token codec\<close>

text \<open>
  A token is \<^verbatim>\<open>btoa(JSON.stringify(tokenData))\<close> and is read back with
  \<^verbatim>\<open>JSON.parse(atob(token))\<close>. Strings are lists of 8-bit characters, the code units
  \<^verbatim>\<open>btoa\<close> accepts and \<^verbatim>\<open>atob\<close> returns. Numbers are integers: the only numbers the
  code puts into a token are slot numbers and timestamps.
\<close>

datatype json = JNull | JBool bool | JNum int | JStr string | JArr "json list" | JObj "(string \<times> json) list"

subsection \<open>\<^verbatim>\<open>JSON.stringify\<close>\<close>

text \<open>
  Integers print in decimal. A string is quoted with the escapes of \<^verbatim>\<open>JSON.stringify\<close>:
  the quote, the backslash, the short escapes and \<^verbatim>\<open>\u00XX\<close> for the other control
  characters. The members of an object print in list order, the property order of an
  object literal whose keys are not array indices.
\<close>

definition digit_char :: "nat \<Rightarrow> char" where
  "digit_char d = char_of (48 + d)"

fun digits :: "nat \<Rightarrow> string" where
  "digits n = (if n < 10 then [digit_char n] else digits (n div 10) @ [digit_char (n mod 10)])"

declare digits.simps [simp del]

definition show_int :: "int \<Rightarrow> string" where
  "show_int i = (if i < 0 then CHR ''-'' # digits (nat (- i)) else digits (nat i))"

fun join :: "string \<Rightarrow> string list \<Rightarrow> string" where
  "join sep [] = []"
| "join sep [x] = x"
| "join sep (x # y # ys) = x @ sep @ join sep (y # ys)"

definition hex_digit :: "nat \<Rightarrow> char" where
  "hex_digit d = (if d < 10 then char_of (48 + d) else char_of (87 + d))"

definition escape_char :: "char \<Rightarrow> string" where
  "escape_char c =
     (if c = CHR 0x22 then [CHR 0x5C, CHR 0x22]
      else if c = CHR 0x5C then [CHR 0x5C, CHR 0x5C]
      else if c = CHR 0x08 then [CHR 0x5C, CHR ''b'']
      else if c = CHR 0x09 then [CHR 0x5C, CHR ''t'']
      else if c = CHR 0x0A then [CHR 0x5C, CHR ''n'']
      else if c = CHR 0x0C then [CHR 0x5C, CHR ''f'']
      else if c = CHR 0x0D then [CHR 0x5C, CHR ''r'']
      else if (of_char c :: nat) < 0x20 then
        [CHR 0x5C, CHR ''u'', CHR ''0'', CHR ''0'',
         hex_digit ((of_char c :: nat) div 16), hex_digit ((of_char c :: nat) mod 16)]
      else [c])"

definition quote_string :: "string \<Rightarrow> string" where
  "quote_string s = CHR 0x22 # concat (map escape_char s) @ [CHR 0x22]"

fun JSON_stringify :: "json \<Rightarrow> string" where
  "JSON_stringify JNull = ''null''"
| "JSON_stringify (JBool b) = (if b then ''true'' else ''false'')"
| "JSON_stringify (JNum n) = show_int n"
| "JSON_stringify (JStr s) = quote_string s"
| "JSON_stringify (JArr xs) = ''['' @ join '','' (map JSON_stringify xs) @ '']''"
| "JSON_stringify (JObj ms) =
     ''{'' @ join '','' (map (\<lambda>(k, v). quote_string k @ '':'' @ JSON_stringify v) ms) @ ''}''"

subsection \<open>\<^verbatim>\<open>JSON.parse\<close>\<close>

text \<open>
  A recursive-descent parser for the JSON grammar. The fuel bounds the nesting and the
  number of elements; \<open>JSON_parse\<close> supplies \<open>2 * length text + 1\<close>. A number literal
  with a fraction or an exponent and an escape \<^verbatim>\<open>\uXXXX\<close> above \<^verbatim>\<open>\u00FF\<close> denote values
  outside the model (a double, a 16-bit code unit); the parser gives no result for them.
\<close>

definition is_json_ws :: "char \<Rightarrow> bool" where
  "is_json_ws c \<longleftrightarrow> c = CHR 0x20 \<or> c = CHR 0x09 \<or> c = CHR 0x0A \<or> c = CHR 0x0D"

fun skip_ws :: "string \<Rightarrow> string" where
  "skip_ws [] = []"
| "skip_ws (c # cs) = (if is_json_ws c then skip_ws cs else c # cs)"

definition hex_value :: "char \<Rightarrow> nat option" where
  "hex_value c =
     (let k = of_char c :: nat in
      if 48 \<le> k \<and> k \<le> 57 then Some (k - 48)
      else if 97 \<le> k \<and> k \<le> 102 then Some (k - 87)
      else if 65 \<le> k \<and> k \<le> 70 then Some (k - 55)
      else None)"

definition unescape :: "char \<Rightarrow> char option" where
  "unescape e =
     (if e = CHR 0x22 then Some (CHR 0x22)
      else if e = CHR 0x5C then Some (CHR 0x5C)
      else if e = CHR ''/'' then Some (CHR ''/'')
      else if e = CHR ''b'' then Some (CHR 0x08)
      else if e = CHR ''f'' then Some (CHR 0x0C)
      else if e = CHR ''n'' then Some (CHR 0x0A)
      else if e = CHR ''r'' then Some (CHR 0x0D)
      else if e = CHR ''t'' then Some (CHR 0x09)
      else None)"

definition unicode_escape :: "char \<Rightarrow> char \<Rightarrow> char \<Rightarrow> char \<Rightarrow> char option" where
  "unicode_escape h1 h2 h3 h4 =
     (case (hex_value h1, hex_value h2, hex_value h3, hex_value h4) of
        (Some a, Some b, Some c, Some d) \<Rightarrow>
          if a = 0 \<and> b = 0 then Some (char_of (16 * c + d)) else None
      | _ \<Rightarrow> None)"

fun parse_string_chars :: "string \<Rightarrow> (string \<times> string) option" where
  "parse_string_chars [] = None"
| "parse_string_chars (c # cs) =
     (if c = CHR 0x22 then Some ([], cs)
      else if c = CHR 0x5C then
        (case cs of
           [] \<Rightarrow> None
         | e # r \<Rightarrow>
             if e = CHR ''u'' then
               (case r of
                  h1 # h2 # h3 # h4 # r' \<Rightarrow>
                    (case unicode_escape h1 h2 h3 h4 of
                       None \<Rightarrow> None
                     | Some u \<Rightarrow> map_option (\<lambda>(str, rest). (u # str, rest)) (parse_string_chars r'))
                | _ \<Rightarrow> None)
             else
               (case unescape e of
                  None \<Rightarrow> None
                | Some u \<Rightarrow> map_option (\<lambda>(str, rest). (u # str, rest)) (parse_string_chars r)))
      else if (of_char c :: nat) < 0x20 then None
      else map_option (\<lambda>(str, rest). (c # str, rest)) (parse_string_chars cs))"

definition is_digit :: "char \<Rightarrow> bool" where
  "is_digit c \<longleftrightarrow> 48 \<le> (of_char c :: nat) \<and> (of_char c :: nat) \<le> 57"

definition digits_value :: "string \<Rightarrow> nat" where
  "digits_value ds = foldl (\<lambda>a c. 10 * a + (of_char c - 48)) 0 ds"

definition parse_number :: "string \<Rightarrow> (json \<times> string) option" where
  "parse_number s =
     (let negative = (s \<noteq> [] \<and> hd s = CHR ''-'');
          s1 = (if negative then tl s else s);
          ds = takeWhile is_digit s1;
          rest = dropWhile is_digit s1
      in if ds = [] then None
         else if hd ds = CHR ''0'' \<and> tl ds \<noteq> [] then None
         else if rest \<noteq> [] \<and> (hd rest = CHR ''.'' \<or> hd rest = CHR ''e'' \<or> hd rest = CHR ''E'') then None
         else Some (JNum (if negative then - int (digits_value ds) else int (digits_value ds)), rest))"

fun strip_prefix :: "string \<Rightarrow> string \<Rightarrow> string option" where
  "strip_prefix [] s = Some s"
| "strip_prefix (p # ps) [] = None"
| "strip_prefix (p # ps) (c # cs) = (if p = c then strip_prefix ps cs else None)"

fun parse_value :: "nat \<Rightarrow> string \<Rightarrow> (json \<times> string) option"
  and parse_elements :: "nat \<Rightarrow> string \<Rightarrow> (json list \<times> string) option"
  and parse_members :: "nat \<Rightarrow> string \<Rightarrow> ((string \<times> json) list \<times> string) option" where
  "parse_value 0 s = None"
| "parse_value (Suc n) s =
     (case skip_ws s of
        [] \<Rightarrow> None
      | c # r \<Rightarrow>
          if c = CHR 0x22 then map_option (\<lambda>(str, rest). (JStr str, rest)) (parse_string_chars r)
          else if c = CHR ''['' then
            (case skip_ws r of
               [] \<Rightarrow> None
             | d # r' \<Rightarrow>
                 if d = CHR '']'' then Some (JArr [], r')
                 else map_option (\<lambda>(xs, rest). (JArr xs, rest)) (parse_elements n r))
          else if c = CHR ''{'' then
            (case skip_ws r of
               [] \<Rightarrow> None
             | d # r' \<Rightarrow>
                 if d = CHR ''}'' then Some (JObj [], r')
                 else map_option (\<lambda>(ms, rest). (JObj ms, rest)) (parse_members n r))
          else if c = CHR ''-'' \<or> is_digit c then parse_number (c # r)
          else if c = CHR ''t'' then map_option (\<lambda>rest. (JBool True, rest)) (strip_prefix ''rue'' r)
          else if c = CHR ''f'' then map_option (\<lambda>rest. (JBool False, rest)) (strip_prefix ''alse'' r)
          else if c = CHR ''n'' then map_option (\<lambda>rest. (JNull, rest)) (strip_prefix ''ull'' r)
          else None)"
| "parse_elements 0 s = None"
| "parse_elements (Suc n) s =
     (case parse_value n s of
        None \<Rightarrow> None
      | Some (v, rest) \<Rightarrow>
          (case skip_ws rest of
             [] \<Rightarrow> None
           | c # r \<Rightarrow>
               if c = CHR '','' then map_option (\<lambda>(vs, rest'). (v # vs, rest')) (parse_elements n r)
               else if c = CHR '']'' then Some ([v], r)
               else None))"
| "parse_members 0 s = None"
| "parse_members (Suc n) s =
     (case skip_ws s of
        [] \<Rightarrow> None
      | q # r \<Rightarrow>
          if q \<noteq> CHR 0x22 then None
          else
            (case parse_string_chars r of
               None \<Rightarrow> None
             | Some (k, r1) \<Rightarrow>
                 (case skip_ws r1 of
                    [] \<Rightarrow> None
                  | c # r2 \<Rightarrow>
                      if c \<noteq> CHR '':'' then None
                      else
                        (case parse_value n r2 of
                           None \<Rightarrow> None
                         | Some (v, r3) \<Rightarrow>
                             (case skip_ws r3 of
                                [] \<Rightarrow> None
                              | d # r4 \<Rightarrow>
                                  if d = CHR '','' then
                                    map_option (\<lambda>(ms, rest). ((k, v) # ms, rest)) (parse_members n r4)
                                  else if d = CHR ''}'' then Some ([(k, v)], r4)
                                  else None)))))"

definition JSON_parse :: "string \<Rightarrow> json option" where
  "JSON_parse text =
     (case parse_value (2 * length text + 1) text of
        None \<Rightarrow> None
      | Some (v, rest) \<Rightarrow> if skip_ws rest = [] then Some v else None)"

subsection \<open>\<^verbatim>\<open>btoa\<close> and \<^verbatim>\<open>atob\<close>\<close>

text \<open>
  \<^verbatim>\<open>btoa\<close> is Base64 with padding. \<^verbatim>\<open>atob\<close> is the forgiving Base64 decoding of the
  platform: ASCII whitespace is removed, one or two padding characters are removed when
  the length is a multiple of four, a length of one modulo four or a character outside the
  alphabet is an error, and the bits left over are dropped.
\<close>

definition b64_char :: "nat \<Rightarrow> char" where
  "b64_char n =
     (if n < 26 then char_of (65 + n)
      else if n < 52 then char_of (71 + n)
      else if n < 62 then char_of (n - 4)
      else if n = 62 then CHR ''+''
      else CHR ''/'')"

definition b64_value :: "char \<Rightarrow> nat option" where
  "b64_value c =
     (let k = of_char c :: nat in
      if 65 \<le> k \<and> k \<le> 90 then Some (k - 65)
      else if 97 \<le> k \<and> k \<le> 122 then Some (k - 71)
      else if 48 \<le> k \<and> k \<le> 57 then Some (k + 4)
      else if c = CHR ''+'' then Some 62
      else if c = CHR ''/'' then Some 63
      else None)"

fun b64_encode :: "nat list \<Rightarrow> string" where
  "b64_encode (a # b # c # r) =
     b64_char (a div 4) # b64_char ((a mod 4) * 16 + b div 16)
       # b64_char ((b mod 16) * 4 + c div 64) # b64_char (c mod 64) # b64_encode r"
| "b64_encode [a, b] =
     [b64_char (a div 4), b64_char ((a mod 4) * 16 + b div 16), b64_char ((b mod 16) * 4), CHR ''='']"
| "b64_encode [a] = [b64_char (a div 4), b64_char ((a mod 4) * 16), CHR ''='', CHR ''='']"
| "b64_encode [] = []"

definition btoa :: "string \<Rightarrow> string" where
  "btoa s = b64_encode (map of_char s)"

definition is_ascii_whitespace :: "char \<Rightarrow> bool" where
  "is_ascii_whitespace c \<longleftrightarrow>
     c = CHR 0x09 \<or> c = CHR 0x0A \<or> c = CHR 0x0C \<or> c = CHR 0x0D \<or> c = CHR 0x20"

definition strip_padding :: "string \<Rightarrow> string" where
  "strip_padding d =
     (case rev d of
        p # q # r \<Rightarrow> if p = CHR ''='' then (if q = CHR ''='' then rev r else rev (q # r)) else d
      | [p] \<Rightarrow> if p = CHR ''='' then [] else d
      | [] \<Rightarrow> d)"

fun b64_decode :: "nat list \<Rightarrow> nat list" where
  "b64_decode (a # b # c # d # r) =
     (a * 4 + b div 16) # ((b mod 16) * 16 + c div 4) # ((c mod 4) * 64 + d) # b64_decode r"
| "b64_decode [a, b, c] = [a * 4 + b div 16, (b mod 16) * 16 + c div 4]"
| "b64_decode [a, b] = [a * 4 + b div 16]"
| "b64_decode [a] = []"
| "b64_decode [] = []"

definition atob :: "string \<Rightarrow> string option" where
  "atob data =
     (let d1 = filter (\<lambda>c. \<not> is_ascii_whitespace c) data;
          d2 = (if length d1 mod 4 = 0 then strip_padding d1 else d1)
      in if length d2 mod 4 = 1 then None
         else (case those (map b64_value d2) of
                 None \<Rightarrow> None
               | Some sextets \<Rightarrow> Some (map char_of (b64_decode sextets))))"

subsection \<open>Minting and decoding a token\<close>

text \<open>\<open>generateQRToken\<close> of \<^verbatim>\<open>src/lib/api.ts\<close>; \<open>now\<close> is \<^verbatim>\<open>Date.now()\<close>.\<close>

definition generateQRToken :: "string \<Rightarrow> string \<Rightarrow> int \<Rightarrow> string" where
  "generateQRToken sessionId qrSecret now =
     (let timestamp = now div 1000;
          slotTime = timestamp div 10;
          tokenData = JObj [(''sessionId'', JStr sessionId), (''slotTime'', JNum slotTime),
                            (''secret'', JStr qrSecret)]
      in btoa (JSON_stringify tokenData))"

definition decodeToken :: "string \<Rightarrow> json option" where
  "decodeToken token = (case atob token of None \<Rightarrow> None | Some text \<Rightarrow> JSON_parse text)"

subsection \<open>JavaScript values\<close>

text \<open>
  Property access (\<open>None\<close> is \<^verbatim>\<open>undefined\<close>; a repeated key of a parsed object holds
  its last value), truthiness, strict equality (two parsed arrays or objects are never
  the same reference) and the string conversion that \<^verbatim>\<open>.eq(column, value)\<close> applies to
  its value.
\<close>

fun js_get :: "json \<Rightarrow> string \<Rightarrow> json option" where
  "js_get (JObj members) key = map_of (rev members) key"
| "js_get v key = None"

fun js_truthy :: "json \<Rightarrow> bool" where
  "js_truthy JNull = False"
| "js_truthy (JBool b) = b"
| "js_truthy (JNum n) = (n \<noteq> 0)"
| "js_truthy (JStr s) = (s \<noteq> [])"
| "js_truthy (JArr xs) = True"
| "js_truthy (JObj ms) = True"

fun js_strict_eq :: "json \<Rightarrow> json \<Rightarrow> bool" where
  "js_strict_eq JNull JNull = True"
| "js_strict_eq (JBool a) (JBool b) = (a = b)"
| "js_strict_eq (JNum a) (JNum b) = (a = b)"
| "js_strict_eq (JStr a) (JStr b) = (a = b)"
| "js_strict_eq v w = False"

definition js_strict_eq_opt :: "json option \<Rightarrow> json option \<Rightarrow> bool" where
  "js_strict_eq_opt v w =
     (case (v, w) of
        (None, None) \<Rightarrow> True
      | (Some a, Some b) \<Rightarrow> js_strict_eq a b
      | _ \<Rightarrow> False)"

fun js_String :: "json \<Rightarrow> string" where
  "js_String JNull = ''null''"
| "js_String (JBool b) = (if b then ''true'' else ''false'')"
| "js_String (JNum n) = show_int n"
| "js_String (JStr s) = s"
| "js_String (JArr xs) = join '','' (map (\<lambda>x. if x = JNull then [] else js_String x) xs)"
| "js_String (JObj ms) = ''[object Object]''"

definition js_String_opt :: "json option \<Rightarrow> string" where
  "js_String_opt v = (case v of None \<Rightarrow> ''undefined'' | Some x \<Rightarrow> js_String x)"

section \<open>Session lifecycle (\<^verbatim>\<open>src/lib/api.ts\<close>)\<close>

subsection \<open>Extending and ending a session\<close>

definition extendSession :: "string \<Rightarrow> store \<Rightarrow> (error + session_row) \<times> store" where
  "extendSession sessionId st =
     (case single (filter (\<lambda>s. s_id s = sessionId) (sessions st)) of
        None \<Rightarrow> (Inl SessionCannotBeExtended, st)
      | Some session \<Rightarrow>
          if s_extended session then (Inl SessionCannotBeExtended, st)
          else
            let newEndTime = s_end_time session + 30 * 1000;
                st' = st\<lparr>sessions :=
                        map (\<lambda>s. if s_id s = sessionId
                                  then s\<lparr>s_end_time := newEndTime, s_extended := True\<rparr>
                                  else s) (sessions st)\<rparr>
            in (case single (filter (\<lambda>s. s_id s = sessionId) (sessions st')) of
                  None \<Rightarrow> (Inl StoreError, st')
                | Some data \<Rightarrow> (Inr data, st')))"

definition endSession :: "string \<Rightarrow> int \<Rightarrow> store \<Rightarrow> (error + session_row) \<times> store" where
  "endSession sessionId now st =
     (let st' = st\<lparr>sessions :=
                   map (\<lambda>s. if s_id s = sessionId
                             then s\<lparr>s_status := Ended, s_end_time := now\<rparr>
                             else s) (sessions st)\<rparr>
      in (case single (filter (\<lambda>s. s_id s = sessionId) (sessions st')) of
            None \<Rightarrow> (Inl StoreError, st')
          | Some data \<Rightarrow> (Inr data, st')))"

text \<open>The session stored under an id, when the primary key finds exactly one.\<close>

definition the_session :: "store \<Rightarrow> string \<Rightarrow> session_row option" where
  "the_session st sessionId = single (filter (\<lambda>s. s_id s = sessionId) (sessions st))"

subsection \<open>Starting a session\<close>





text \<open>
  A bulk insert into \<open>attendance\<close> is one statement: it adds every row, or none when a
  row violates the unique key \<open>(session_id, student_id)\<close>.
\<close>

definition attendance_key :: "attendance_row \<Rightarrow> string \<times> string" where
  "attendance_key r = (a_session_id r, a_student_id r)"

definition insert_attendance :: "attendance_row list \<Rightarrow> store \<Rightarrow> store option" where
  "insert_attendance rows st =
     (if distinct (map attendance_key rows)
         \<and> (\<forall>r \<in> set rows. attendance_key r \<notin> attendance_key ` set (attendance st))
      then Some (st\<lparr>attendance := attendance st @ rows\<rparr>)
      else None)"






section \<open>Check-in\<close>

subsection \<open>\<open>acknowledgeScan\<close> (\<^verbatim>\<open>src/lib/api.ts\<close>)\<close>

definition pending_record :: "string \<Rightarrow> string \<Rightarrow> int \<Rightarrow> attendance_row" where
  "pending_record sessionId studentId now =
     \<lparr>a_session_id = sessionId, a_student_id = studentId, a_status = Pending,
      a_checkin_time = Some now, a_liveness = None, a_photo_url = None\<rparr>"

text \<open>
  \<open>acknowledgeScan\<close> runs three parts in order, each ending the call with its error: the
  token is decoded and its \<open>sessionId\<close> read; the active session is loaded and the secret
  and the end of the window are checked; the attendance record is created or set to
  \<open>pending\<close>. The token's \<open>sessionId\<close> is whatever JSON value the token holds; the
  queries compare its string conversion with the id columns, and an insert accepts it for
  the \<open>session_id\<close> column only when it is a string. Destructuring \<^verbatim>\<open>null\<close> throws a
  \<^verbatim>\<open>TypeError\<close>.
\<close>

definition token_sessionId :: "string \<Rightarrow> error + json \<times> json" where
  "token_sessionId token =
     (case decodeToken token of
        None \<Rightarrow> Inl InvalidTokenFormat
      | Some tokenData \<Rightarrow>
          if tokenData = JNull then Inl TypeError
          else
            (case js_get tokenData ''sessionId'' of
               None \<Rightarrow> Inl TokenMissingSessionID
             | Some sessionId \<Rightarrow>
                 if \<not> js_truthy sessionId then Inl TokenMissingSessionID
                 else Inr (tokenData, sessionId)))"

definition active_session :: "json \<Rightarrow> json \<Rightarrow> int \<Rightarrow> store \<Rightarrow> error + session_row" where
  "active_session tokenData sessionId now st =
     (case maybeSingle (filter (\<lambda>s. s_id s = js_String sessionId \<and> s_status s = Active)
                               (sessions st)) of
        Inl _ \<Rightarrow> Inl SessionNotFoundOrExpired
      | Inr None \<Rightarrow> Inl SessionNotFoundOrExpired
      | Inr (Some session) \<Rightarrow>
          if js_get tokenData ''secret'' \<noteq> Some (JStr (s_qr_secret session)) then Inl InvalidQRToken
          else if now > s_end_time session then Inl SessionHasEnded
          else Inr session)"

definition mark_pending :: "json \<Rightarrow> string \<Rightarrow> int \<Rightarrow> store \<Rightarrow> (error + attendance_row) \<times> store" where
  "mark_pending sessionId studentId now st =
     (let mine = (\<lambda>a. a_session_id a = js_String sessionId \<and> a_student_id a = studentId)
      in case maybeSingle (filter mine (attendance st)) of
           Inl _ \<Rightarrow> (Inl FailedToCheckAttendanceStatus, st)
         | Inr None \<Rightarrow>
             (case sessionId of
                JStr sid \<Rightarrow>
                  (case insert_attendance [pending_record sid studentId now] st of
                     None \<Rightarrow> (Inl FailedToCreateAttendanceRecord, st)
                   | Some st' \<Rightarrow> (Inr (pending_record sid studentId now), st'))
              | _ \<Rightarrow> (Inl FailedToCreateAttendanceRecord, st))
         | Inr (Some currentAttendance) \<Rightarrow>
             if a_status currentAttendance = Present then (Inl AlreadyMarkedPresent, st)
             else
               let st' = st\<lparr>attendance :=
                           map (\<lambda>a. if mine a
                                     then a\<lparr>a_status := Pending, a_checkin_time := Some now\<rparr>
                                     else a) (attendance st)\<rparr>
               in (case maybeSingle (filter mine (attendance st')) of
                     Inl _ \<Rightarrow> (Inl StoreError, st')
                   | Inr None \<Rightarrow> (Inl NoAttendanceRecordFoundToUpdate, st')
                   | Inr (Some data) \<Rightarrow> (Inr data, st')))"

definition acknowledgeScan :: "string \<Rightarrow> string \<Rightarrow> int \<Rightarrow> store \<Rightarrow> (error + attendance_row) \<times> store" where
  "acknowledgeScan token studentId now st =
     (case token_sessionId token of
        Inl e \<Rightarrow> (Inl e, st)
      | Inr (tokenData, sessionId) \<Rightarrow>
          (case active_session tokenData sessionId now st of
             Inl e \<Rightarrow> (Inl e, st)
           | Inr session \<Rightarrow> mark_pending sessionId studentId now st))"

subsection \<open>The \<^verbatim>\<open>submit-attendance\<close> function\<close>

text \<open>
  The request: the \<^verbatim>\<open>Authorization\<close> header and the fields of the JSON body. The
  session id and the liveness signal are arbitrary JSON values (\<open>None\<close> when absent); the
  token and the photo are strings, as the client sends them.
\<close>

record request =
  r_authHeader :: "string option"
  r_sessionId :: "json option"
  r_token :: string
  r_photoBlob :: "string option"
  r_liveness :: "json option"

datatype http_error = HttpError nat string

record submit_ok =
  ok_attendance :: attendance_row
  ok_status :: attendance_status
  ok_message :: string

text \<open>The decision: \<^verbatim>\<open>liveness === true ? 'present' : 'pending'\<close>.\<close>

definition attendanceStatus :: "json option \<Rightarrow> attendance_status" where
  "attendanceStatus liveness = (if liveness = Some (JBool True) then Present else Pending)"

text \<open>
  What the boolean column \<open>liveness\<close> stores for a JSON value: \<^verbatim>\<open>null\<close> and the booleans
  are stored as they are; for any other value, which the client never sends, the model
  lets the store refuse the write.
\<close>

definition pg_boolean :: "json \<Rightarrow> bool option option" where
  "pg_boolean v = (case v of JNull \<Rightarrow> Some None | JBool b \<Rightarrow> Some (Some b) | _ \<Rightarrow> None)"

text \<open>
  The upload of the photo: the file name is \<^verbatim>\<open>${user.id}/${sessionId}/${Date.now()}.jpg\<close>,
  the bucket refuses a name it already holds (\<^verbatim>\<open>upsert: false\<close>), and a photo that
  \<^verbatim>\<open>atob\<close> cannot decode ends the request in the handler's \<^verbatim>\<open>catch\<close>.
\<close>

definition store_photo ::
  "string \<Rightarrow> json option \<Rightarrow> string option \<Rightarrow> int \<Rightarrow> store \<Rightarrow> (http_error + string option) \<times> store" where
  "store_photo user sessionId photoBlob now st =
     (case photoBlob of
        None \<Rightarrow> (Inr None, st)
      | Some blob \<Rightarrow>
          if blob = [] then (Inr None, st)
          else
            let fileName = user @ ''/'' @ js_String_opt sessionId @ ''/'' @ show_int now @ ''.jpg''
            in (case atob blob of
                  None \<Rightarrow> (Inl (HttpError 500 ''Internal server error''), st)
                | Some photoData \<Rightarrow>
                    if fileName \<in> set (files st)
                    then (Inl (HttpError 500 ''Failed to upload photo''), st)
                    else (Inr (Some (''attendance-photos/'' @ fileName)),
                          st\<lparr>files := files st @ [fileName]\<rparr>)))"

text \<open>
  The write of the attendance record: an update of the row that \<^verbatim>\<open>.single()\<close> found for
  (student, session), an insert otherwise. A key absent from the update (\<open>liveness\<close> when
  \<^verbatim>\<open>undefined\<close>) leaves its column as it is.
\<close>

definition write_attendance ::
  "string \<Rightarrow> json option \<Rightarrow> attendance_status \<Rightarrow> json option \<Rightarrow> string option \<Rightarrow> int \<Rightarrow> store
     \<Rightarrow> (http_error + attendance_row) \<times> store" where
  "write_attendance user sessionId status liveness photoUrl now st =
     (let mine = (\<lambda>a. a_student_id a = user \<and> a_session_id a = js_String_opt sessionId);
          existingAttendance = single (filter mine (attendance st))
      in case existingAttendance of
           Some existing \<Rightarrow>
             (case (case liveness of None \<Rightarrow> Some (a_liveness existing) | Some v \<Rightarrow> pg_boolean v) of
                None \<Rightarrow> (Inl (HttpError 500 ''Failed to update attendance''), st)
              | Some stored \<Rightarrow>
                  let st' = st\<lparr>attendance :=
                              map (\<lambda>a. if mine a
                                        then a\<lparr>a_status := status, a_checkin_time := Some now,
                                               a_photo_url := photoUrl, a_liveness := stored\<rparr>
                                        else a) (attendance st)\<rparr>
                  in (case single (filter mine (attendance st')) of
                        None \<Rightarrow> (Inl (HttpError 500 ''Failed to update attendance''), st')
                      | Some data \<Rightarrow> (Inr data, st')))
         | None \<Rightarrow>
             (case (sessionId, case liveness of None \<Rightarrow> Some None | Some v \<Rightarrow> pg_boolean v) of
                (Some (JStr sid), Some stored) \<Rightarrow>
                  let row = \<lparr>a_session_id = sid, a_student_id = user, a_status = status,
                             a_checkin_time = Some now, a_liveness = stored, a_photo_url = photoUrl\<rparr>
                  in (case insert_attendance [row] st of
                        None \<Rightarrow> (Inl (HttpError 500 ''Failed to create attendance''), st)
                      | Some st' \<Rightarrow> (Inr row, st'))
              | _ \<Rightarrow> (Inl (HttpError 500 ''Failed to create attendance''), st)))"

definition status_message :: "attendance_status \<Rightarrow> string" where
  "status_message status =
     (if status = Present then ''Attendance marked successfully!''
      else if status = Pending then ''Attendance submitted for review''
      else ''Face verification failed'')"

text \<open>
  The checks of the session and of the token, in the order of the source: the session
  exists, is active, the clock is inside its window, the token decodes, and it carries
  the request's session id and the session's secret.
\<close>

definition verify_session_and_token :: "request \<Rightarrow> int \<Rightarrow> store \<Rightarrow> http_error + session_row" where
  "verify_session_and_token req now st =
     (let sessionId = r_sessionId req; token = r_token req
      in case single (filter (\<lambda>s. s_id s = js_String_opt sessionId) (sessions st)) of
           None \<Rightarrow> Inl (HttpError 404 ''Invalid session'')
         | Some session \<Rightarrow>
             if s_status session \<noteq> Active then Inl (HttpError 400 ''Session is not active'')
             else if now < s_start_time session \<or> now > s_end_time session
             then Inl (HttpError 400 ''Session not in valid time window'')
             else
               (case decodeToken token of
                  None \<Rightarrow> Inl (HttpError 401 ''Invalid token format'')
                | Some tokenData \<Rightarrow>
                    if \<not> js_truthy tokenData
                       \<or> \<not> js_strict_eq_opt (js_get tokenData ''sessionId'') sessionId
                       \<or> js_get tokenData ''secret'' \<noteq> Some (JStr (s_qr_secret session))
                    then Inl (HttpError 401 ''Invalid token'')
                    else Inr session))"

text \<open>
  The caller: \<open>getUser\<close> is the identity store, mapping the \<^verbatim>\<open>Authorization\<close> header
  to the id of the authenticated user, if any; the user must be enrolled in the class.
\<close>

definition enrolled_user ::
  "(string \<Rightarrow> string option) \<Rightarrow> string \<Rightarrow> session_row \<Rightarrow> store \<Rightarrow> http_error + string" where
  "enrolled_user getUser authHeader session st =
     (case getUser authHeader of
        None \<Rightarrow> Inl (HttpError 401 ''Unauthorized'')
      | Some user \<Rightarrow>
          (case single (filter (\<lambda>e. e_student_id e = user \<and> e_class_id e = s_class_id session)
                               (enrollments st)) of
             None \<Rightarrow> Inl (HttpError 403 ''Not enrolled in this class'')
           | Some enrollment \<Rightarrow> Inr user))"

text \<open>The handler: the steps above in order, each ending the request with its error.\<close>

definition submit_attendance ::
  "(string \<Rightarrow> string option) \<Rightarrow> request \<Rightarrow> int \<Rightarrow> store \<Rightarrow> (http_error + submit_ok) \<times> store" where
  "submit_attendance getUser req now st =
     (case r_authHeader req of
        None \<Rightarrow> (Inl (HttpError 401 ''Authorization header required''), st)
      | Some authHeader \<Rightarrow>
          (case verify_session_and_token req now st of
             Inl e \<Rightarrow> (Inl e, st)
           | Inr session \<Rightarrow>
               (case enrolled_user getUser authHeader session st of
                  Inl e \<Rightarrow> (Inl e, st)
                | Inr user \<Rightarrow>
                    (case store_photo user (r_sessionId req) (r_photoBlob req) now st of
                       (Inl e, st1) \<Rightarrow> (Inl e, st1)
                     | (Inr photoUrl, st1) \<Rightarrow>
                         let liveness = r_liveness req;
                             status = attendanceStatus liveness
                         in (case write_attendance user (r_sessionId req) status liveness
                                    photoUrl now st1 of
                               (Inl e, st2) \<Rightarrow> (Inl e, st2)
                             | (Inr attendanceData, st2) \<Rightarrow>
                                 (Inr \<lparr>ok_attendance = attendanceData, ok_status = status,
                                       ok_message = status_message status\<rparr>,
                                  st2))))))"

subsection \<open>The \<^verbatim>\<open>secure-qr-token\<close> function\<close>

datatype user_role = Admin | Teacher | Student

record qr_token_ok =
  qt_token :: string
  qt_sessionId :: "json option"
  qt_validUntil :: int

text \<open>
  The second mint path, on the server. \<open>getUser\<close> is the identity store and \<open>role_of\<close>
  the role column of the caller's profile.
\<close>

definition secure_qr_token ::
  "(string \<Rightarrow> string option) \<Rightarrow> (string \<Rightarrow> user_role option) \<Rightarrow> string option \<Rightarrow> json option \<Rightarrow> int
     \<Rightarrow> store \<Rightarrow> http_error + qr_token_ok" where
  "secure_qr_token getUser role_of authHeader sessionId now st =
     (case authHeader of
        None \<Rightarrow> Inl (HttpError 401 ''Authorization header required'')
      | Some header \<Rightarrow>
          (case getUser header of
             None \<Rightarrow> Inl (HttpError 401 ''Unauthorized'')
           | Some user \<Rightarrow>
               if role_of user \<noteq> Some Teacher
               then Inl (HttpError 403 ''Only teachers can generate QR tokens'')
               else
                 (case single (filter (\<lambda>s. s_id s = js_String_opt sessionId \<and> s_teacher_id s = user)
                                      (sessions st)) of
                    None \<Rightarrow> Inl (HttpError 404 ''Session not found or unauthorized'')
                  | Some session \<Rightarrow>
                      let currentTime = now div 1000;
                          timeSlot = currentTime div 300;
                          tokenData = JObj [(''sessionId'', JStr (s_id session)),
                                            (''secret'', JStr (s_qr_secret session)),
                                            (''timeSlot'', JNum timeSlot),
                                            (''timestamp'', JNum currentTime)];
                          token = btoa (JSON_stringify tokenData)
                      in Inr \<lparr>qt_token = token, qt_sessionId = sessionId,
                              qt_validUntil = (timeSlot + 1) * 300 * 1000\<rparr>)))"

section \<open>Notification sweeps\<close>

text \<open>
  A sweep emits one mail per absentee that has an e-mail address; the mails attempted are
  returned as pairs (session id, student id). Delivery and the counters of the HTTP
  response are not modelled.
\<close>

definition has_email :: "enrollment_row \<Rightarrow> bool" where
  "has_email e = (case e_email e of None \<Rightarrow> False | Some a \<Rightarrow> a \<noteq> [])"

text \<open>
  The body of the loop of \<^verbatim>\<open>send-absence-notifications\<close> (the function the scheduler
  calls): the students who attended are those whose record is \<open>present\<close>.
\<close>

definition absentees_scheduled :: "store \<Rightarrow> session_row \<Rightarrow> enrollment_row list" where
  "absentees_scheduled st session =
     (let enrolledStudents = filter (\<lambda>e. e_class_id e = s_class_id session) (enrollments st);
          presentStudents = filter (\<lambda>a. a_session_id a = s_id session \<and> a_status a = Present)
                                   (attendance st);
          presentStudentIds = map a_student_id presentStudents
      in filter (\<lambda>enrollment. e_student_id enrollment \<notin> set presentStudentIds) enrolledStudents)"

definition process_ended_session ::
  "session_row \<Rightarrow> (string \<times> string) list \<times> store \<Rightarrow> (string \<times> string) list \<times> store" where
  "process_ended_session session acc =
     (let st = snd acc;
          absentees = absentees_scheduled st session;
          mails = map (\<lambda>e. (s_id session, e_student_id e)) (filter has_email absentees)
      in (fst acc @ mails,
          st\<lparr>sessions := map (\<lambda>s. if s_id s = s_id session
                                   then s\<lparr>s_notifications_sent := Some True\<rparr> else s)
                              (sessions st)\<rparr>))"

definition send_absence_notifications :: "int \<Rightarrow> store \<Rightarrow> (string \<times> string) list \<times> store" where
  "send_absence_notifications now st =
     (let thirtyMinutesAgo = now - 30 * 60 * 1000;
          st1 = st\<lparr>sessions :=
                  map (\<lambda>s. if s_end_time s \<le> now \<and> s_status s = Active
                            then s\<lparr>s_status := Ended\<rparr> else s) (sessions st)\<rparr>;
          endedSessions =
            filter (\<lambda>s. s_end_time s \<le> now \<and> s_end_time s \<ge> thirtyMinutesAgo
                       \<and> s_status s = Ended \<and> s_notifications_sent s = Some False)
                   (sessions st1)
      in fold process_ended_session endedSessions ([], st1))"

text \<open>
  \<^verbatim>\<open>send-absence-notifications-scheduled\<close>: repairs the stored status at its clock reading
  \<open>now\<close>, then invokes \<^verbatim>\<open>send-absence-notifications\<close>, which reads the clock itself
  (\<open>now'\<close>).
\<close>

definition send_absence_notifications_scheduled ::
  "int \<Rightarrow> int \<Rightarrow> store \<Rightarrow> (string \<times> string) list \<times> store" where
  "send_absence_notifications_scheduled now now' st =
     (let st1 = st\<lparr>sessions :=
                  map (\<lambda>s. if s_status s = Active \<and> s_end_time s < now
                            then s\<lparr>s_status := Ended\<rparr> else s) (sessions st)\<rparr>
      in send_absence_notifications now' st1)"

text \<open>
  \<^verbatim>\<open>send-all-absence-notifications\<close> (on the teacher's request): the students who attended
  are those whose record is \<open>present\<close> or \<open>pending\<close>. The filter
  \<^verbatim>\<open>.eq('classes.teacher_id', teacherId)\<close> is a filter on the embedded resource: it
  decides which class is embedded in a session row, not which session rows are returned,
  so the sessions selected are those whose \<open>end_time\<close> lies in the last 24 hours. The flag
  \<open>notifications_sent\<close> is neither read nor written.
\<close>

definition absentees_on_demand :: "store \<Rightarrow> session_row \<Rightarrow> enrollment_row list" where
  "absentees_on_demand st session =
     (let enrolledStudents = filter (\<lambda>e. e_class_id e = s_class_id session) (enrollments st);
          presentStudents = filter (\<lambda>a. a_session_id a = s_id session
                                         \<and> a_status a \<in> {Present, Pending}) (attendance st);
          presentStudentIds = map a_student_id presentStudents
      in filter (\<lambda>enrollment. e_student_id enrollment \<notin> set presentStudentIds) enrolledStudents)"

definition processNotifications :: "string \<Rightarrow> int \<Rightarrow> store \<Rightarrow> (string \<times> string) list" where
  "processNotifications teacherId now st =
     (let twentyFourHoursAgo = now - 24 * 60 * 60 * 1000;
          recentSessions = filter (\<lambda>s. s_end_time s \<le> now \<and> s_end_time s \<ge> twentyFourHoursAgo)
                                  (sessions st)
      in concat (map (\<lambda>session.
                   map (\<lambda>e. (s_id session, e_student_id e))
                       (filter has_email (absentees_on_demand st session)))
                 recentSessions))"

section \<open>Auxiliary notions for the proofs\<close>

text \<open>
  The Base64 encoding split into its six-bit values and its padding; the characters that
  may follow a number; the values and the member texts of a flat object.
\<close>

fun b64_sextets :: "nat list \<Rightarrow> nat list" where
  "b64_sextets (a # b # c # r) =
     a div 4 # ((a mod 4) * 16 + b div 16) # ((b mod 16) * 4 + c div 64) # c mod 64 # b64_sextets r"
| "b64_sextets [a, b] = [a div 4, (a mod 4) * 16 + b div 16, (b mod 16) * 4]"
| "b64_sextets [a] = [a div 4, (a mod 4) * 16]"
| "b64_sextets [] = []"

fun b64_padding :: "nat list \<Rightarrow> string" where
  "b64_padding (a # b # c # r) = b64_padding r"
| "b64_padding [a, b] = ''=''"
| "b64_padding [a] = ''==''"
| "b64_padding [] = []"

definition number_end :: "string \<Rightarrow> bool" where
  "number_end rest \<longleftrightarrow>
     rest = [] \<or> (\<not> is_digit (hd rest) \<and> hd rest \<noteq> CHR ''.'' \<and> hd rest \<noteq> CHR ''e'' \<and> hd rest \<noteq> CHR ''E'')"

fun simple_value :: "json \<Rightarrow> bool" where
  "simple_value (JStr s) = True"
| "simple_value (JNum i) = True"
| "simple_value v = False"

definition member_text :: "string \<times> json \<Rightarrow> string" where
  "member_text m = quote_string (fst m) @ '':'' @ JSON_stringify (snd m)"

section \<open>Example data\<close>

text \<open>A class with three enrolled students and one running session, used for concrete runs.\<close>

definition ex_session :: session_row where
  "ex_session =
     \<lparr>s_id = ''s1'', s_class_id = ''c1'', s_teacher_id = ''t1'',
      s_start_time = 1000, s_end_time = 91000, s_extended = False,
      s_qr_secret = ''k3y'', s_status = Active, s_notifications_sent = Some False\<rparr>"

definition ex_enrollments :: "enrollment_row list" where
  "ex_enrollments =
     [\<lparr>e_class_id = ''c1'', e_student_id = ''u1'', e_roll_number = None, e_email = Some ''u1@x''\<rparr>,
      \<lparr>e_class_id = ''c1'', e_student_id = ''u2'', e_roll_number = None, e_email = Some ''u2@x''\<rparr>,
      \<lparr>e_class_id = ''c1'', e_student_id = ''u3'', e_roll_number = None, e_email = Some ''u3@x''\<rparr>]"

definition ex_store :: store where
  "ex_store = \<lparr>sessions = [ex_session], attendance = [], enrollments = ex_enrollments, files = []\<rparr>"

definition ex_attendance :: "attendance_row list" where
  "ex_attendance =
     [\<lparr>a_session_id = ''s1'', a_student_id = ''u1'', a_status = Present,
       a_checkin_time = Some 5000, a_liveness = Some True, a_photo_url = None\<rparr>,
      \<lparr>a_session_id = ''s1'', a_student_id = ''u2'', a_status = Pending,
       a_checkin_time = Some 6000, a_liveness = None, a_photo_url = None\<rparr>,
      \<lparr>a_session_id = ''s1'', a_student_id = ''u3'', a_status = Absent,
       a_checkin_time = None, a_liveness = None, a_photo_url = None\<rparr>]"

text \<open>A request of student \<open>u1\<close> for session \<open>s1\<close>, and the identity store that knows \<open>u1\<close>.\<close>

definition ex_getUser :: "string \<Rightarrow> string option" where
  "ex_getUser authHeader = (if authHeader = ''Bearer u1'' then Some ''u1'' else None)"

definition ex_request :: "string \<Rightarrow> json option \<Rightarrow> request" where
  "ex_request token liveness =
     \<lparr>r_authHeader = Some ''Bearer u1'', r_sessionId = Some (JStr ''s1''), r_token = token,
      r_photoBlob = None, r_liveness = liveness\<rparr>"

definition empty_store :: store where
  "empty_store = \<lparr>sessions = [], attendance = [], enrollments = [], files = []\<rparr>"

section \<open>Properties of the session lifecycle\<close>

lemma single_Some_iff: "single rows = Some x \<longleftrightarrow> rows = [x]"
  by (auto simp: single_def split: list.splits)

lemma filter_map_update_same:
  assumes "filter (\<lambda>s. s_id s = k) ss = [x]"
      and "\<And>s. s_id (f s) = s_id s"
  shows "filter (\<lambda>s. s_id s = k) (map (\<lambda>s. if s_id s = k then f s else s) ss) = [f x]"
proof -
  have "filter (\<lambda>s. s_id s = k) (map (\<lambda>s. if s_id s = k then f s else s) ss)
        = map f (filter (\<lambda>s. s_id s = k) ss)"
    using assms(2) by (induction ss) auto
  with assms(1) show ?thesis by simp
qed

lemma extendSession_fresh:
  assumes "the_session st sid = Some s" and "\<not> s_extended s"
  shows "extendSession sid st =
           (Inr (s\<lparr>s_end_time := s_end_time s + 30000, s_extended := True\<rparr>),
            st\<lparr>sessions := map (\<lambda>r. if s_id r = sid
                                     then r\<lparr>s_end_time := s_end_time s + 30000, s_extended := True\<rparr>
                                     else r) (sessions st)\<rparr>)"
proof -
  from assms(1) have f: "filter (\<lambda>r. s_id r = sid) (sessions st) = [s]"
    by (simp add: the_session_def single_Some_iff)
  have g: "filter (\<lambda>r. s_id r = sid)
             (map (\<lambda>r. if s_id r = sid
                        then (\<lambda>r. r\<lparr>s_end_time := s_end_time s + 30000, s_extended := True\<rparr>) r
                        else r) (sessions st))
           = [s\<lparr>s_end_time := s_end_time s + 30000, s_extended := True\<rparr>]"
    by (rule filter_map_update_same [OF f]) simp
  show ?thesis
    using assms(2) f g by (simp add: extendSession_def single_def Let_def)
qed

lemma extendSession_extended:
  assumes "the_session st sid = Some s" and "s_extended s"
  shows "extendSession sid st = (Inl SessionCannotBeExtended, st)"
  using assms by (simp add: extendSession_def the_session_def)

lemma extendSession_missing:
  assumes "the_session st sid = None"
  shows "extendSession sid st = (Inl SessionCannotBeExtended, st)"
  using assms by (simp add: extendSession_def the_session_def)

text \<open>
  Claim C4 (extension is one-shot). For a stored session whose \<open>extended\<close> flag is false,
  \<open>extendSession\<close> succeeds, returns the session with \<open>end_time\<close> advanced by exactly
  30 seconds and \<open>extended = true\<close>, and stores it; a second \<open>extendSession\<close> on the result
  fails with the error \<^verbatim>\<open>Session cannot be extended\<close> and leaves the store, hence
  \<open>end_time\<close>, as it was after the one successful extension.
\<close>

theorem extend_one_shot:
  assumes "the_session st sid = Some s" and "\<not> s_extended s"
  shows "fst (extendSession sid st) = Inr (s\<lparr>s_end_time := s_end_time s + 30 * 1000, s_extended := True\<rparr>)
       \<and> the_session (snd (extendSession sid st)) sid
           = Some (s\<lparr>s_end_time := s_end_time s + 30 * 1000, s_extended := True\<rparr>)
       \<and> extendSession sid (snd (extendSession sid st))
           = (Inl SessionCannotBeExtended, snd (extendSession sid st))"
proof -
  let ?s1 = "s\<lparr>s_end_time := s_end_time s + 30000, s_extended := True\<rparr>"
  let ?st1 = "snd (extendSession sid st)"
  from assms(1) have f: "filter (\<lambda>r. s_id r = sid) (sessions st) = [s]"
    by (simp add: the_session_def single_Some_iff)
  have first: "fst (extendSession sid st) = Inr ?s1"
    by (simp add: extendSession_fresh [OF assms])
  have "sessions ?st1 = map (\<lambda>r. if s_id r = sid
                                  then (\<lambda>r. r\<lparr>s_end_time := s_end_time s + 30000, s_extended := True\<rparr>) r
                                  else r) (sessions st)"
    by (simp add: extendSession_fresh [OF assms])
  then have "filter (\<lambda>r. s_id r = sid) (sessions ?st1) = [?s1]"
    using filter_map_update_same [OF f, of "\<lambda>r. r\<lparr>s_end_time := s_end_time s + 30000, s_extended := True\<rparr>"]
    by simp
  then have stored: "the_session ?st1 sid = Some ?s1"
    by (simp add: the_session_def single_def)
  have second: "extendSession sid ?st1 = (Inl SessionCannotBeExtended, ?st1)"
    by (rule extendSession_extended [OF stored]) simp
  from first stored second show ?thesis by simp
qed

theorem extend_one_shot_witness:
  "the_session ex_store ''s1'' = Some ex_session \<and> \<not> s_extended ex_session
   \<and> fst (extendSession ''s1'' ex_store) = Inr (ex_session\<lparr>s_end_time := 121000, s_extended := True\<rparr>)
   \<and> extendSession ''s1'' (snd (extendSession ''s1'' ex_store))
       = (Inl SessionCannotBeExtended, snd (extendSession ''s1'' ex_store))"
proof -
  have h1: "the_session ex_store ''s1'' = Some ex_session"
    by (simp add: the_session_def single_def ex_store_def ex_session_def)
  have h2: "\<not> s_extended ex_session"
    by (simp add: ex_session_def)
  have e: "s_end_time ex_session + 30 * 1000 = 121000"
    by (simp add: ex_session_def)
  show ?thesis
    using extend_one_shot [OF h1 h2] h1 h2 e by simp
qed

text \<open>
  Claim C6, as stated, fails: a missing session and a double extension raise the same
  error, \<^verbatim>\<open>Session cannot be extended\<close>, from the one guard
  \<^verbatim>\<open>if (!session || session.extended)\<close>; the two failures cannot be told apart.
\<close>

theorem extend_not_found_counterexample:
  "fst (extendSession ''s1'' empty_store)
     = fst (extendSession ''s1'' (ex_store\<lparr>sessions := [ex_session\<lparr>s_extended := True\<rparr>]\<rparr>))"
  by (simp add: extendSession_def single_def empty_store_def ex_store_def ex_session_def)

text \<open>
  Claim C6, amended. For every session id under which no session is stored,
  \<open>extendSession\<close> fails with the error \<^verbatim>\<open>Session cannot be extended\<close> (the error a
  double extension raises as well) and leaves the store unchanged: the missing session is
  reported, never defaulted.
\<close>

theorem extend_missing_reported:
  assumes "sid \<notin> s_id ` set (sessions st)"
  shows "extendSession sid st = (Inl SessionCannotBeExtended, st)"
proof -
  from assms have "filter (\<lambda>r. s_id r = sid) (sessions st) = []"
    by (auto simp: filter_empty_conv)
  then show ?thesis
    by (simp add: extendSession_def single_def)
qed

theorem extend_missing_reported_witness:
  "''s2'' \<notin> s_id ` set (sessions ex_store)
   \<and> extendSession ''s2'' ex_store = (Inl SessionCannotBeExtended, ex_store)"
proof -
  have h: "''s2'' \<notin> s_id ` set (sessions ex_store)"
    by (simp add: ex_store_def ex_session_def)
  show ?thesis
    using extend_missing_reported [OF h] h by simp
qed

text \<open>
  Claim C7, as stated, fails on both counts. Ending a session after its window has elapsed
  moves \<open>end_time\<close> later (from 91000 to 200000 below), and ending an already ended session
  overwrites its \<open>end_time\<close> again (from 50000 to 60000).
\<close>

theorem end_clamp_counterexample:
  "map s_end_time (sessions (snd (endSession ''s1'' 200000 ex_store))) = [200000]
   \<and> s_end_time ex_session = 91000
   \<and> map s_end_time (sessions (snd (endSession ''s1'' 50000 ex_store))) = [50000]
   \<and> map s_status (sessions (snd (endSession ''s1'' 50000 ex_store))) = [Ended]
   \<and> map s_end_time (sessions (snd (endSession ''s1'' 60000 (snd (endSession ''s1'' 50000 ex_store))))) = [60000]"
  by (simp add: endSession_def single_def ex_store_def ex_session_def Let_def)

text \<open>
  Claim C7, amended. On a stored session \<open>endSession\<close> succeeds, sets \<open>status = ended\<close> and
  overwrites \<open>end_time\<close> with the clock reading \<open>now\<close>, whatever the stored value was, and
  changes no other field. On an already ended session it succeeds again, the status stays
  \<open>ended\<close> and \<open>end_time\<close> becomes the new reading; repeated at the same clock reading it
  changes nothing.
\<close>

theorem end_overwrites:
  assumes "the_session st sid = Some s"
  shows "fst (endSession sid now st) = Inr (s\<lparr>s_status := Ended, s_end_time := now\<rparr>)
       \<and> the_session (snd (endSession sid now st)) sid = Some (s\<lparr>s_status := Ended, s_end_time := now\<rparr>)
       \<and> fst (endSession sid now' (snd (endSession sid now st)))
           = Inr (s\<lparr>s_status := Ended, s_end_time := now'\<rparr>)
       \<and> endSession sid now (snd (endSession sid now st)) = endSession sid now st"
proof -
  let ?upd = "\<lambda>t (r::session_row). r\<lparr>s_status := Ended, s_end_time := t\<rparr>"
  let ?st1 = "snd (endSession sid now st)"
  from assms have f: "filter (\<lambda>r. s_id r = sid) (sessions st) = [s]"
    by (simp add: the_session_def single_Some_iff)
  have ss1: "sessions ?st1 = map (\<lambda>r. if s_id r = sid then ?upd now r else r) (sessions st)"
    by (simp add: endSession_def Let_def split: option.splits)
  have f1: "filter (\<lambda>r. s_id r = sid) (sessions ?st1) = [?upd now s]"
    unfolding ss1 by (rule filter_map_update_same [OF f]) simp
  have r1: "fst (endSession sid now st) = Inr (?upd now s)"
    using f1 ss1 by (simp add: endSession_def Let_def single_def)
  have stored: "the_session ?st1 sid = Some (?upd now s)"
    using f1 by (simp add: the_session_def single_def)
  have f2: "filter (\<lambda>r. s_id r = sid)
              (map (\<lambda>r. if s_id r = sid then ?upd now' r else r) (sessions ?st1)) = [?upd now' (?upd now s)]"
    by (rule filter_map_update_same [OF f1]) simp
  have r2: "fst (endSession sid now' ?st1) = Inr (?upd now' s)"
    using f2 by (simp add: endSession_def [of sid now' ?st1] Let_def single_def)
  have idem: "map (\<lambda>r. if s_id r = sid then ?upd now r else r) (sessions ?st1) = sessions ?st1"
    unfolding ss1 by (induction "sessions st") auto
  have st_eq: "?st1 = st\<lparr>sessions := sessions ?st1\<rparr>"
    by (simp add: endSession_def Let_def split: option.splits)
  have again: "endSession sid now ?st1 = (Inr (?upd now s), ?st1)"
    using f1 idem by (simp add: endSession_def [of sid now ?st1] Let_def single_def)
  have "endSession sid now st = (Inr (?upd now s), ?st1)"
    using r1 by (simp add: prod_eq_iff)
  with again r1 stored r2 show ?thesis by simp
qed

theorem end_overwrites_witness:
  "the_session ex_store ''s1'' = Some ex_session
   \<and> fst (endSession ''s1'' 200000 ex_store) = Inr (ex_session\<lparr>s_status := Ended, s_end_time := 200000\<rparr>)
   \<and> endSession ''s1'' 200000 (snd (endSession ''s1'' 200000 ex_store)) = endSession ''s1'' 200000 ex_store"
proof -
  have h: "the_session ex_store ''s1'' = Some ex_session"
    by (simp add: the_session_def single_def ex_store_def ex_session_def)
  show ?thesis
    using end_overwrites [OF h, of 200000 200000] h by simp
qed

section \<open>Starting a session twice\<close>











section \<open>Properties of the notification sweeps\<close>


lemma process_ended_session_keeps:
  "map (\<lambda>s. (s_id s, s_end_time s, s_status s)) (sessions (snd (process_ended_session x acc)))
   = map (\<lambda>s. (s_id s, s_end_time s, s_status s)) (sessions (snd acc))"
  by (simp add: process_ended_session_def Let_def comp_def)

lemma fold_process_ended_session_keeps:
  "map (\<lambda>s. (s_id s, s_end_time s, s_status s)) (sessions (snd (fold process_ended_session xs acc)))
   = map (\<lambda>s. (s_id s, s_end_time s, s_status s)) (sessions (snd acc))"
  by (induction xs arbitrary: acc) (simp_all add: process_ended_session_keeps)

lemma send_absence_notifications_sessions:
  "map (\<lambda>s. (s_id s, s_end_time s, s_status s)) (sessions (snd (send_absence_notifications now st)))
   = map (\<lambda>s. (s_id s, s_end_time s,
                 if s_end_time s \<le> now \<and> s_status s = Active then Ended else s_status s))
         (sessions st)"
  by (simp add: send_absence_notifications_def Let_def fold_process_ended_session_keeps comp_def
           if_distrib [of s_id] if_distrib [of s_end_time] if_distrib [of s_status] cong: if_cong)

lemma not_Active_iff: "s \<noteq> Active \<longleftrightarrow> s = Ended"
  by (cases s) auto

text \<open>
  Claim C10 (the scheduled sweep repairs the stored status). After
  \<^verbatim>\<open>send-absence-notifications-scheduled\<close> has run at clock reading \<open>now\<close>, every stored
  session is still stored with its \<open>end_time\<close>, and no session of any teacher or class
  whose \<open>end_time\<close> is earlier than \<open>now\<close> has status \<open>active\<close>: it is \<open>ended\<close>.
\<close>

theorem scheduled_sweep_repairs_status:
  "map s_id (sessions (snd (send_absence_notifications_scheduled now now' st))) = map s_id (sessions st)
   \<and> map s_end_time (sessions (snd (send_absence_notifications_scheduled now now' st)))
       = map s_end_time (sessions st)
   \<and> (\<forall>s \<in> set (sessions (snd (send_absence_notifications_scheduled now now' st))).
         s_end_time s < now \<longrightarrow> s_status s = Ended)"
proof -
  let ?f = "\<lambda>s. (s_id s, s_end_time s, s_status s)"
  let ?st1 = "st\<lparr>sessions := map (\<lambda>s. if s_status s = Active \<and> s_end_time s < now
                                        then s\<lparr>s_status := Ended\<rparr> else s) (sessions st)\<rparr>"
  let ?out = "sessions (snd (send_absence_notifications_scheduled now now' st))"
  let ?r = "\<lambda>s. if s_status s = Active \<and> s_end_time s < now then s\<lparr>s_status := Ended\<rparr> else s"
  let ?g = "\<lambda>s. (s_id s, s_end_time s,
                 if s_end_time s \<le> now' \<and> s_status s = Active then Ended else s_status s)"
  have eq: "map ?f ?out
        = map (\<lambda>s. (s_id s, s_end_time s,
                 if s_end_time s \<le> now' \<and> s_status s = Active then Ended else s_status s))
              (sessions ?st1)"
    by (simp add: send_absence_notifications_scheduled_def Let_def
                  send_absence_notifications_sessions)
  have ids: "map s_id ?out = map s_id (sessions st)"
  proof -
    have "map s_id ?out = map fst (map ?f ?out)" by (simp add: comp_def)
    also have "\<dots> = map s_id (sessions st)"
      unfolding eq by (simp add: comp_def if_distrib [of s_id] cong: if_cong)
    finally show ?thesis .
  qed
  have ends: "map s_end_time ?out = map s_end_time (sessions st)"
  proof -
    have "map s_end_time ?out = map (fst \<circ> snd) (map ?f ?out)" by (simp add: comp_def)
    also have "\<dots> = map s_end_time (sessions st)"
      unfolding eq by (simp add: comp_def if_distrib [of s_end_time] cong: if_cong)
    finally show ?thesis .
  qed
  have all: "\<forall>p \<in> set (map ?f ?out). fst (snd p) < now \<longrightarrow> snd (snd p) = Ended"
    unfolding eq by (auto simp: not_Active_iff split: if_splits)
  have repaired: "\<forall>s \<in> set ?out. s_end_time s < now \<longrightarrow> s_status s = Ended"
  proof (intro ballI impI)
    fix s assume s: "s \<in> set ?out" and lt: "s_end_time s < now"
    from s have "?f s \<in> set (map ?f ?out)" by simp
    with all lt show "s_status s = Ended" by fastforce
  qed
  from ids ends repaired show ?thesis by simp
qed



lemma absentees_on_demand_ids:
  "e_student_id ` set (absentees_on_demand st session)
   = e_student_id ` {e \<in> set (enrollments st). e_class_id e = s_class_id session}
     - a_student_id ` {a \<in> set (attendance st). a_session_id a = s_id session
                                              \<and> (a_status a = Present \<or> a_status a = Pending)}"
  by (auto simp: absentees_on_demand_def Let_def)

lemma absentees_scheduled_ids:
  "e_student_id ` set (absentees_scheduled st session)
   = e_student_id ` {e \<in> set (enrollments st). e_class_id e = s_class_id session}
     - a_student_id ` {a \<in> set (attendance st). a_session_id a = s_id session
                                              \<and> a_status a = Present}"
  by (auto simp: absentees_scheduled_def Let_def)

lemma on_demand_sweep_example:
  "processNotifications ''t1'' 100000 (ex_store\<lparr>attendance := ex_attendance\<rparr>) = [(''s1'', ''u3'')]"
  by code_simp

text \<open>
  Claim C8 (absentee computation) holds for the sweep on the teacher's request
  (\<open>absentees_on_demand_ids\<close>) and fails for the scheduled one, which takes only the
  \<open>present\<close> records as attended: with student \<open>u1\<close> present, \<open>u2\<close> pending and
  \<open>u3\<close> absent, it mails \<open>u2\<close> as absent.
\<close>

theorem scheduled_sweep_notifies_pending:
  "fst (send_absence_notifications 100000 (ex_store\<lparr>attendance := ex_attendance\<rparr>))
     = [(''s1'', ''u2''), (''s1'', ''u3'')]"
  by code_simp

theorem scheduled_sweep_repairs_status_witness:
  "s_end_time ex_session < 100000 \<and> s_status ex_session = Active
   \<and> map s_id (sessions (snd (send_absence_notifications_scheduled 100000 100001 ex_store))) = [''s1'']
   \<and> list_all (\<lambda>s. s_status s = Ended)
        (sessions (snd (send_absence_notifications_scheduled 100000 100001 ex_store)))"
proof -
  note t = scheduled_sweep_repairs_status [of 100000 100001 ex_store]
  have ends: "map s_end_time (sessions (snd (send_absence_notifications_scheduled 100000 100001 ex_store)))
              = [91000]"
    using t by (simp add: ex_store_def ex_session_def)
  have "\<forall>s \<in> set (sessions (snd (send_absence_notifications_scheduled 100000 100001 ex_store))).
          s_end_time s < 100000"
  proof
    fix s assume "s \<in> set (sessions (snd (send_absence_notifications_scheduled 100000 100001 ex_store)))"
    then have "s_end_time s \<in> set (map s_end_time
                 (sessions (snd (send_absence_notifications_scheduled 100000 100001 ex_store))))"
      by simp
    then show "s_end_time s < 100000" unfolding ends by simp
  qed
  with t have "\<forall>s \<in> set (sessions (snd (send_absence_notifications_scheduled 100000 100001 ex_store))).
          s_status s = Ended" by blast
  then have "list_all (\<lambda>s. s_status s = Ended)
        (sessions (snd (send_absence_notifications_scheduled 100000 100001 ex_store)))"
    by (simp add: list_all_iff)
  moreover have "map s_id (sessions (snd (send_absence_notifications_scheduled 100000 100001 ex_store))) = [''s1'']"
    using t by (simp add: ex_store_def ex_session_def)
  ultimately show ?thesis by (simp add: ex_session_def)
qed


section \<open>The token codec round trip\<close>

subsection \<open>Base64\<close>

lemma b64_value_char: "n < 64 \<Longrightarrow> b64_value (b64_char n) = Some n"
  by (auto simp: b64_value_def b64_char_def Let_def)

lemma b64_char_not_ws: "n < 64 \<Longrightarrow> \<not> is_ascii_whitespace (b64_char n)"
  using b64_value_char [of n]
  by (auto simp: is_ascii_whitespace_def b64_value_def Let_def)

lemma b64_char_not_pad: "n < 64 \<Longrightarrow> b64_char n \<noteq> CHR ''=''"
  using b64_value_char [of n]
  by (auto simp: b64_value_def Let_def)

lemma b64_encode_sextets: "b64_encode bs = map b64_char (b64_sextets bs) @ b64_padding bs"
  by (induction bs rule: b64_encode.induct) simp_all

lemma b64_sextets_bound: "\<forall>b \<in> set bs. b < 256 \<Longrightarrow> \<forall>x \<in> set (b64_sextets bs). x < 64"
proof (induction bs rule: b64_sextets.induct)
  case (1 a b c r)
  have "a div 4 < 64" "(a mod 4) * 16 + b div 16 < 64" "(b mod 16) * 4 + c div 64 < 64" "c mod 64 < 64"
    using 1(2) by (auto simp: div_less_iff_less_mult) 
  with 1 show ?case by simp
next
  case (2 a b)
  have "a div 4 < 64" "(a mod 4) * 16 + b div 16 < 64" "(b mod 16) * 4 < 64"
    using 2 by (auto simp: div_less_iff_less_mult)
  then show ?case by simp
next
  case (3 a)
  have "a div 4 < 64" "(a mod 4) * 16 < 64"
    using 3 by (auto simp: div_less_iff_less_mult)
  then show ?case by simp
qed simp

lemma pack_div: "(y::nat) < n \<Longrightarrow> (x * n + y) div n = x"
  by simp

lemma pack_mod: "(y::nat) < n \<Longrightarrow> (x * n + y) mod n = y"
  by simp

lemma b64_decode_chunk:
  assumes "b < 256" "c < 256"
  shows "a div 4 * 4 + ((a mod 4) * 16 + b div 16) div 16 = (a::nat)
       \<and> (((a mod 4) * 16 + b div 16) mod 16) * 16 + ((b mod 16) * 4 + c div 64) div 4 = b
       \<and> (((b mod 16) * 4 + c div 64) mod 4) * 64 + c mod 64 = c"
proof (intro conjI)
  have b: "b div 16 < 16" and c: "c div 64 < 4"
    using assms by (simp_all add: div_less_iff_less_mult)
  show "a div 4 * 4 + ((a mod 4) * 16 + b div 16) div 16 = a"
    by (simp add: pack_div [OF b])
  show "(((a mod 4) * 16 + b div 16) mod 16) * 16 + ((b mod 16) * 4 + c div 64) div 4 = b"
    using b by (simp add: pack_mod [OF b] pack_div [OF c])
  show "(((b mod 16) * 4 + c div 64) mod 4) * 64 + c mod 64 = c"
    using c by (simp add: pack_mod [OF c])
qed

lemma b64_decode_sextets: "\<forall>b \<in> set bs. b < 256 \<Longrightarrow> b64_decode (b64_sextets bs) = bs"
proof (induction bs rule: b64_sextets.induct)
  case (1 a b c r)
  then show ?case
    using b64_decode_chunk [where a=a and b=b and c=c] by simp
next
  case (2 a b)
  then show ?case
    using b64_decode_chunk [where a=a and b=b and c=0] by simp
next
  case (3 a)
  then show ?case
    using b64_decode_chunk [where a=a and b=0 and c=0] by simp
qed simp

lemma b64_sextets_length: "length (b64_sextets bs) mod 4 \<noteq> 1"
  by (induction bs rule: b64_sextets.induct) simp_all

lemma b64_encode_length: "length (b64_encode bs) mod 4 = 0"
  by (induction bs rule: b64_encode.induct) simp_all

lemma those_b64_value:
  "\<forall>x \<in> set xs. x < 64 \<Longrightarrow> those (map b64_value (map b64_char xs)) = Some xs"
  by (induction xs) (simp_all add: b64_value_char)

lemma filter_ws_b64:
  "\<forall>x \<in> set xs. x < 64 \<Longrightarrow>
   filter (\<lambda>c. \<not> is_ascii_whitespace c) (map b64_char xs @ b64_padding bs)
   = map b64_char xs @ b64_padding bs"
proof -
  assume a: "\<forall>x \<in> set xs. x < 64"
  have "\<forall>c \<in> set (b64_padding bs). \<not> is_ascii_whitespace c"
    by (induction bs rule: b64_padding.induct) (simp_all add: is_ascii_whitespace_def)
  moreover have "\<forall>c \<in> set (map b64_char xs). \<not> is_ascii_whitespace c"
    using a by (auto simp: b64_char_not_ws)
  ultimately show ?thesis
    by (simp add: filter_id_conv)
qed

lemma strip_padding_append:
  assumes "2 \<le> length ys"
  shows "strip_padding (xs @ ys) = xs @ strip_padding ys"
proof -
  from assms obtain p q r where r: "rev ys = p # q # r"
    by (cases "rev ys"; cases "tl (rev ys)") (auto simp: Suc_le_eq dest: arg_cong [where f = length])
  then have "rev (xs @ ys) = p # q # (r @ rev xs)" by simp
  with r show ?thesis
    by (simp add: strip_padding_def)
qed

lemma strip_padding_no_pad:
  assumes "xs \<noteq> []" and "last xs \<noteq> CHR ''=''"
  shows "strip_padding xs = xs"
proof -
  from assms(1) obtain p r where r: "rev xs = p # r" by (cases "rev xs") auto
  then have "last xs = p" by (metis hd_rev list.sel(1))
  with assms(2) r show ?thesis
    by (cases r) (simp_all add: strip_padding_def)
qed

lemma b64_sextets_nonempty: "bs \<noteq> [] \<Longrightarrow> 2 \<le> length (b64_sextets bs)"
  by (induction bs rule: b64_sextets.induct) simp_all

lemma strip_padding_b64:
  assumes "\<forall>b \<in> set bs. b < 256"
  shows "strip_padding (map b64_char (b64_sextets bs) @ b64_padding bs) = map b64_char (b64_sextets bs)"
  using assms
proof (induction bs rule: b64_sextets.induct)
  case (1 a b c r)
  let ?h = "[b64_char (a div 4), b64_char ((a mod 4) * 16 + b div 16),
             b64_char ((b mod 16) * 4 + c div 64), b64_char (c mod 64)]"
  let ?t = "map b64_char (b64_sextets r) @ b64_padding r"
  have whole: "map b64_char (b64_sextets (a # b # c # r)) @ b64_padding (a # b # c # r) = ?h @ ?t"
    by simp
  show ?case
  proof (cases "r = []")
    case True
    have "c mod 64 < 64" by simp
    then have "last ?h \<noteq> CHR ''=''" by (simp add: b64_char_not_pad)
    then have "strip_padding ?h = ?h" by (intro strip_padding_no_pad) simp_all
    with True show ?thesis by simp
  next
    case False
    then have "2 \<le> length ?t" using b64_sextets_nonempty [of r] by simp
    then have "strip_padding (?h @ ?t) = ?h @ strip_padding ?t"
      by (rule strip_padding_append)
    also have "strip_padding ?t = map b64_char (b64_sextets r)"
      using 1 by simp
    finally show ?thesis unfolding whole by simp
  qed
next
  case (2 a b)
  have "(b mod 16) * 4 < 64" by simp
  then show ?case
    by (simp add: strip_padding_def b64_char_not_pad)
next
  case (3 a)
  then show ?case
    by (simp add: strip_padding_def)
next
  case 4
  then show ?case by (simp add: strip_padding_def)
qed

theorem atob_btoa: "atob (btoa s) = Some s"
proof -
  let ?bs = "map of_char s :: nat list"
  let ?x = "map b64_char (b64_sextets ?bs)"
  have bytes: "\<forall>b \<in> set ?bs. b < 256" by simp
  note six = b64_sextets_bound [OF bytes]
  have enc: "btoa s = ?x @ b64_padding ?bs"
    by (simp add: btoa_def b64_encode_sextets)
  have f: "filter (\<lambda>c. \<not> is_ascii_whitespace c) (btoa s) = btoa s"
    unfolding enc by (rule filter_ws_b64 [OF six])
  have len: "length (btoa s) mod 4 = 0"
    by (simp add: btoa_def b64_encode_length)
  have strip: "strip_padding (btoa s) = ?x"
    unfolding enc by (rule strip_padding_b64 [OF bytes])
  have l1: "length ?x mod 4 \<noteq> 1"
    using b64_sextets_length [of ?bs] by simp
  have th: "those (map b64_value ?x) = Some (b64_sextets ?bs)"
    by (rule those_b64_value [OF six])
  have dec: "map char_of (b64_decode (b64_sextets ?bs)) = s"
    by (simp add: b64_decode_sextets [OF bytes] comp_def)
  show ?thesis
    using l1 th dec by (simp add: atob_def f len strip Let_def)
qed

subsection \<open>JSON\<close>

declare parse_value.simps [simp del] parse_elements.simps [simp del] parse_members.simps [simp del]

lemma hex_value_digit: "d < 16 \<Longrightarrow> hex_value (hex_digit d) = Some d"
  by (auto simp: hex_value_def hex_digit_def Let_def)

lemma unicode_escape_control:
  assumes "(of_char c :: nat) < 32"
  shows "unicode_escape (CHR ''0'') (CHR ''0'')
           (hex_digit ((of_char c :: nat) div 16)) (hex_digit ((of_char c :: nat) mod 16)) = Some c"
proof -
  have "(of_char c :: nat) div 16 < 16" using assms by simp
  then have h3: "hex_value (hex_digit ((of_char c :: nat) div 16)) = Some ((of_char c :: nat) div 16)"
    by (rule hex_value_digit)
  have h4: "hex_value (hex_digit ((of_char c :: nat) mod 16)) = Some ((of_char c :: nat) mod 16)"
    by (rule hex_value_digit) simp
  have h0: "hex_value (CHR ''0'') = Some 0"
    by (simp add: hex_value_def)
  show ?thesis
    by (simp add: unicode_escape_def h0 h3 h4)
qed

lemma parse_escape_char:
  "parse_string_chars (escape_char c @ rest)
   = map_option (\<lambda>(str, rest'). (c # str, rest')) (parse_string_chars rest)"
proof -
  consider (quote) "c = CHR 0x22" | (backslash) "c = CHR 0x5C" | (b) "c = CHR 0x08"
    | (t) "c = CHR 0x09" | (n) "c = CHR 0x0A" | (f) "c = CHR 0x0C" | (r) "c = CHR 0x0D"
    | (control) "c \<noteq> CHR 0x22" "c \<noteq> CHR 0x5C" "c \<noteq> CHR 0x08" "c \<noteq> CHR 0x09" "c \<noteq> CHR 0x0A"
        "c \<noteq> CHR 0x0C" "c \<noteq> CHR 0x0D" "(of_char c :: nat) < 32"
    | (plain) "c \<noteq> CHR 0x22" "c \<noteq> CHR 0x5C" "\<not> (of_char c :: nat) < 32"
    by fastforce
  then show ?thesis
  proof cases
    case control
    then show ?thesis
      by (simp add: escape_char_def unicode_escape_control)
  next
    case plain
    then have "escape_char c = [c]"
      by (auto simp: escape_char_def)
    with plain show ?thesis by simp
  qed (simp_all add: escape_char_def unescape_def)
qed

lemma parse_string_chars_escaped:
  "parse_string_chars (concat (map escape_char s) @ CHR 0x22 # rest) = Some (s, rest)"
  by (induction s) (simp_all add: parse_escape_char)

lemma parse_quote_string:
  "parse_string_chars (tl (quote_string s) @ rest) = Some (s, rest)"
  by (simp add: quote_string_def parse_string_chars_escaped)


lemma is_digit_digit_char: "d < 10 \<Longrightarrow> is_digit (digit_char d)"
  by (simp add: is_digit_def digit_char_def)

lemma of_char_digit_char: "d < 10 \<Longrightarrow> (of_char (digit_char d) :: nat) - 48 = d"
  by (simp add: digit_char_def)

lemma digits_nonempty: "digits n \<noteq> []"
  by (subst digits.simps) simp

lemma digits_all_digit: "\<forall>c \<in> set (digits n). is_digit c"
proof (induction n rule: digits.induct)
  case (1 n)
  show ?case
  proof (cases "n < 10")
    case True
    then show ?thesis
      by (subst digits.simps) (simp add: is_digit_digit_char)
  next
    case False
    with 1 show ?thesis
      by (subst digits.simps) (simp add: is_digit_digit_char)
  qed
qed

lemma digits_value_snoc: "digits_value (ds @ [c]) = 10 * digits_value ds + (of_char c - 48)"
  by (simp add: digits_value_def)

lemma digits_value_digits: "digits_value (digits n) = n"
proof (induction n rule: digits.induct)
  case (1 n)
  show ?case
  proof (cases "n < 10")
    case True
    then show ?thesis
      by (subst digits.simps) (simp add: digits_value_def of_char_digit_char)
  next
    case False
    with 1 show ?thesis
      by (subst digits.simps) (simp add: digits_value_snoc of_char_digit_char)
  qed
qed

lemma digits_leading_zero: "hd (digits n) = CHR ''0'' \<Longrightarrow> n = 0"
proof (induction n rule: digits.induct)
  case (1 n)
  show ?case
  proof (cases "n < 10")
    case True
    with 1(2) have "digit_char n = CHR ''0''"
      by (subst (asm) digits.simps) simp
    then have "(48 + n) mod 256 = 48"
      by (simp add: digit_char_def char_of_eq_iff take_bit_eq_mod)
    with True show ?thesis by simp
  next
    case False
    with 1(2) have "hd (digits (n div 10)) = CHR ''0''"
      by (subst (asm) digits.simps) (simp add: digits_nonempty)
    with 1(1) False have "n div 10 = 0" by simp
    with False show ?thesis by simp
  qed
qed

lemma digits_zero: "digits 0 = ''0''"
  by (subst digits.simps) (simp add: digit_char_def char_of_eq_iff)

lemma span_digits:
  assumes "number_end rest"
  shows "takeWhile is_digit (digits n @ rest) = digits n"
    and "dropWhile is_digit (digits n @ rest) = rest"
proof -
  from assms have t: "takeWhile is_digit rest = []" and d: "dropWhile is_digit rest = rest"
    by (cases rest; simp add: number_end_def)+
  show "takeWhile is_digit (digits n @ rest) = digits n"
    using digits_all_digit [of n] t by simp
  show "dropWhile is_digit (digits n @ rest) = rest"
    using digits_all_digit [of n] d by simp
qed

lemma parse_number_nat:
  assumes "number_end rest"
  shows "parse_number (digits n @ rest) = Some (JNum (int n), rest)"
proof -
  have "is_digit (hd (digits n))"
    using digits_all_digit [of n] digits_nonempty [of n] by (cases "digits n") auto
  then have nm: "hd (digits n @ rest) \<noteq> CHR ''-''"
    using digits_nonempty [of n] by (auto simp: is_digit_def)
  have lz: "\<not> (hd (digits n) = CHR ''0'' \<and> tl (digits n) \<noteq> [])"
    using digits_leading_zero [of n] by (auto simp: digits_zero)
  have ne: "\<not> (rest \<noteq> [] \<and> (hd rest = CHR ''.'' \<or> hd rest = CHR ''e'' \<or> hd rest = CHR ''E''))"
    using assms by (auto simp: number_end_def)
  show ?thesis
    using nm lz ne
    by (simp add: parse_number_def Let_def span_digits [OF assms] digits_nonempty digits_value_digits)
qed

lemma parse_number_show_int:
  assumes "number_end rest"
  shows "parse_number (show_int i @ rest) = Some (JNum i, rest)"
proof (cases "i < 0")
  case True
  let ?n = "nat (- i)"
  have lz: "\<not> (hd (digits ?n) = CHR ''0'' \<and> tl (digits ?n) \<noteq> [])"
    using digits_leading_zero [of ?n] by (auto simp: digits_zero)
  have ne: "\<not> (rest \<noteq> [] \<and> (hd rest = CHR ''.'' \<or> hd rest = CHR ''e'' \<or> hd rest = CHR ''E''))"
    using assms by (auto simp: number_end_def)
  show ?thesis
    using True lz ne
    by (simp add: show_int_def parse_number_def Let_def span_digits [OF assms] digits_nonempty
          digits_value_digits)
next
  case False
  then show ?thesis
    using parse_number_nat [OF assms, of "nat i"] by (simp add: show_int_def)
qed


lemma skip_ws_noop: "\<not> is_json_ws c \<Longrightarrow> skip_ws (c # cs) = c # cs"
  by simp

lemma quote_string_Cons: "quote_string s = CHR 0x22 # tl (quote_string s)"
  by (simp add: quote_string_def)

lemma parse_value_string:
  "parse_value (Suc n) (quote_string s @ rest) = Some (JStr s, rest)"
proof -
  have "parse_value (Suc n) (CHR 0x22 # (tl (quote_string s) @ rest)) = Some (JStr s, rest)"
    by (simp add: parse_value.simps is_json_ws_def parse_quote_string)
  then show ?thesis
    by (subst quote_string_Cons) simp
qed

lemma show_int_first: "\<exists>c cs. show_int i = c # cs \<and> (c = CHR ''-'' \<or> is_digit c)"
proof (cases "i < 0")
  case True
  then show ?thesis by (simp add: show_int_def)
next
  case False
  have "is_digit (hd (digits (nat i)))"
    using digits_all_digit [of "nat i"] digits_nonempty [of "nat i"] by (cases "digits (nat i)") auto
  with False show ?thesis
    using digits_nonempty [of "nat i"] by (cases "digits (nat i)") (auto simp: show_int_def)
qed

lemma parse_value_number:
  assumes "number_end rest"
  shows "parse_value (Suc n) (show_int i @ rest) = Some (JNum i, rest)"
proof -
  obtain c cs where s: "show_int i = c # cs" and c: "c = CHR ''-'' \<or> is_digit c"
    using show_int_first by blast
  from c have nws: "\<not> is_json_ws c" and nq: "c \<noteq> CHR 0x22" and nb: "c \<noteq> CHR ''[''" and nc: "c \<noteq> CHR ''{''"
    by (auto simp: is_json_ws_def is_digit_def)
  have "parse_value (Suc n) (c # cs @ rest) = parse_number (c # cs @ rest)"
    using nws nq nb nc c by (simp add: parse_value.simps)
  also have "\<dots> = Some (JNum i, rest)"
    using parse_number_show_int [OF assms, of i] by (simp add: s)
  finally show ?thesis by (simp add: s)
qed

lemma stringify_object:
  "JSON_stringify (JObj ms) = CHR ''{'' # join '','' (map member_text ms) @ ''}''"
proof -
  have "(\<lambda>(k, v). quote_string k @ '':'' @ JSON_stringify v) = member_text"
    by (auto simp: member_text_def fun_eq_iff)
  then show ?thesis by simp
qed

lemma parse_value_simple:
  assumes "simple_value v" and "number_end rest"
  shows "parse_value (Suc n) (JSON_stringify v @ rest) = Some (v, rest)"
  using assms by (cases v) (simp_all add: parse_value_string parse_value_number)

lemma parse_member_head:
  assumes "parse_value (Suc n) r = Some (v, d # r')" and "\<not> is_json_ws d"
  shows "parse_members (Suc (Suc n)) (quote_string k @ CHR '':'' # r)
         = (if d = CHR '','' then map_option (\<lambda>(ms, rest). ((k, v) # ms, rest)) (parse_members (Suc n) r')
            else if d = CHR ''}'' then Some ([(k, v)], r')
            else None)"
proof -
  obtain t where t: "quote_string k = CHR 0x22 # t" and tl: "t = tl (quote_string k)"
    by (simp add: quote_string_def)
  have p: "parse_string_chars (t @ CHR '':'' # r) = Some (k, CHR '':'' # r)"
    unfolding tl by (rule parse_quote_string)
  show ?thesis
    unfolding t using assms p by (simp add: parse_members.simps is_json_ws_def)
qed

lemma join_member_text_single:
  "join '','' (map member_text [m]) = quote_string (fst m) @ CHR '':'' # JSON_stringify (snd m)"
  by (simp add: member_text_def [of m])

lemma join_member_text_Cons:
  "ms \<noteq> [] \<Longrightarrow>
   join '','' (map member_text (m # ms))
   = quote_string (fst m) @ CHR '':'' # JSON_stringify (snd m) @ CHR '','' # join '','' (map member_text ms)"
  by (cases ms) (simp_all add: member_text_def [of m])

lemma parse_members_simple:
  assumes "ms \<noteq> []" and "\<forall>m \<in> set ms. simple_value (snd m)"
  shows "parse_members (length ms + Suc n) (join '','' (map member_text ms) @ CHR ''}'' # rest)
         = Some (ms, rest)"
  using assms
proof (induction ms rule: list_nonempty_induct)
  case (single m)
  have ne: "number_end (CHR ''}'' # rest)"
    by (simp add: number_end_def is_digit_def)
  have v: "parse_value (Suc n) (JSON_stringify (snd m) @ CHR ''}'' # rest) = Some (snd m, CHR ''}'' # rest)"
    using single by (intro parse_value_simple ne) simp
  have "parse_members (Suc (Suc n)) (quote_string (fst m) @ CHR '':'' # JSON_stringify (snd m) @ CHR ''}'' # rest)
        = Some ([(fst m, snd m)], rest)"
    by (subst parse_member_head [OF v]) (simp_all add: is_json_ws_def)
  then show ?case
    unfolding join_member_text_single by simp
next
  case (cons m ms)
  let ?r = "join '','' (map member_text ms) @ CHR ''}'' # rest"
  have ne: "number_end (CHR '','' # ?r)"
    by (simp add: number_end_def is_digit_def)
  have v: "parse_value (Suc (length ms + n)) (JSON_stringify (snd m) @ CHR '','' # ?r) = Some (snd m, CHR '','' # ?r)"
    using cons.prems by (intro parse_value_simple ne) simp
  have IH: "parse_members (Suc (length ms + n)) ?r = Some (ms, rest)"
    using cons.IH cons.prems by simp
  have "parse_members (Suc (Suc (length ms + n)))
          (quote_string (fst m) @ CHR '':'' # JSON_stringify (snd m) @ CHR '','' # ?r)
        = Some ((fst m, snd m) # ms, rest)"
    by (subst parse_member_head [OF v]) (simp_all add: is_json_ws_def IH)
  then show ?case
    unfolding join_member_text_Cons [OF cons.hyps] by simp
qed

lemma parse_value_object_open:
  "parse_value (Suc n) (CHR ''{'' # quote_string k @ r)
   = map_option (\<lambda>(ms, rest). (JObj ms, rest)) (parse_members n (quote_string k @ r))"
proof -
  obtain t where t: "quote_string k = CHR 0x22 # t"
    by (simp add: quote_string_def)
  show ?thesis
    unfolding t by (simp add: parse_value.simps is_json_ws_def)
qed

lemma parse_value_simple_object:
  assumes "ms \<noteq> []" and "\<forall>m \<in> set ms. simple_value (snd m)"
  shows "parse_value (Suc (length ms + Suc n)) (JSON_stringify (JObj ms) @ rest) = Some (JObj ms, rest)"
proof -
  obtain m ms' where ms: "ms = m # ms'" using assms(1) by (cases ms) auto
  have "\<exists>r. join '','' (map member_text ms) = quote_string (fst m) @ r"
  proof (cases "ms' = []")
    case True
    then show ?thesis unfolding ms by (simp add: member_text_def [of m])
  next
    case False
    then show ?thesis unfolding ms join_member_text_Cons [OF False] by simp
  qed
  then obtain r where r: "join '','' (map member_text ms) = quote_string (fst m) @ r" ..
  have opened: "parse_value (Suc (length ms + Suc n)) (CHR ''{'' # quote_string (fst m) @ (r @ CHR ''}'' # rest))
        = map_option (\<lambda>(ms, rest). (JObj ms, rest))
            (parse_members (length ms + Suc n) (quote_string (fst m) @ (r @ CHR ''}'' # rest)))"
    by (rule parse_value_object_open)
  have eq: "quote_string (fst m) @ (r @ CHR ''}'' # rest) = join '','' (map member_text ms) @ CHR ''}'' # rest"
    by (simp add: r)
  have "parse_value (Suc (length ms + Suc n)) (CHR ''{'' # join '','' (map member_text ms) @ CHR ''}'' # rest)
        = Some (JObj ms, rest)"
    using opened unfolding eq parse_members_simple [OF assms] by simp
  then show ?thesis
    by (simp add: stringify_object del: JSON_stringify.simps)
qed

lemma JSON_parse_simple_object:
  assumes "ms \<noteq> []" and "\<forall>m \<in> set ms. simple_value (snd m)"
      and "length ms + 1 \<le> 2 * length (JSON_stringify (JObj ms))"
  shows "JSON_parse (JSON_stringify (JObj ms)) = Some (JObj ms)"
proof -
  let ?text = "JSON_stringify (JObj ms)"
  from assms(3) obtain n where "2 * length ?text + 1 = (length ms + 2) + n"
    using le_Suc_ex [of "length ms + 2" "2 * length ?text + 1"] by auto
  then have n: "2 * length ?text + 1 = Suc (length ms + Suc n)"
    by simp
  have "parse_value (2 * length ?text + 1) (?text @ []) = Some (JObj ms, [])"
    unfolding n by (rule parse_value_simple_object [OF assms(1,2)])
  then show ?thesis
    by (simp add: JSON_parse_def)
qed

theorem decodeToken_generateQRToken:
  "decodeToken (generateQRToken sessionId qrSecret now)
   = Some (JObj [(''sessionId'', JStr sessionId), (''slotTime'', JNum (now div 10000)),
                 (''secret'', JStr qrSecret)])"
proof -
  let ?ms = "[(''sessionId'', JStr sessionId), (''slotTime'', JNum (now div 10000)),
              (''secret'', JStr qrSecret)]"
  have "now div 1000 div 10 = now div 10000"
    by (simp add: div_mult2_eq [symmetric])
  then have g: "generateQRToken sessionId qrSecret now = btoa (JSON_stringify (JObj ?ms))"
    by (simp add: generateQRToken_def Let_def)
  have "JSON_parse (JSON_stringify (JObj ?ms)) = Some (JObj ?ms)"
    by (rule JSON_parse_simple_object) simp_all
  then show ?thesis
    unfolding g by (simp add: decodeToken_def atob_btoa del: JSON_stringify.simps)
qed

section \<open>Properties of the check-in\<close>

subsection \<open>The decision\<close>





subsection \<open>The secret\<close>

lemma filter_id_and:
  "filter (\<lambda>s. s_id s = k \<and> P s) ss = filter P (filter (\<lambda>s. s_id s = k) ss)"
  by (induction ss) auto

lemma active_session_wrong_secret:
  assumes stored: "the_session st (s_id session) = Some session"
      and sid: "js_String sessionId = s_id session"
      and wrong: "js_get tokenData ''secret'' \<noteq> Some (JStr (s_qr_secret session))"
  shows "active_session tokenData sessionId now st
         = (if s_status session = Active then Inl InvalidQRToken else Inl SessionNotFoundOrExpired)"
proof -
  from stored have f: "filter (\<lambda>s. s_id s = s_id session) (sessions st) = [session]"
    by (simp add: the_session_def single_Some_iff)
  have "filter (\<lambda>s. s_id s = js_String sessionId \<and> s_status s = Active) (sessions st)
        = (if s_status session = Active then [session] else [])"
    unfolding sid filter_id_and f by simp
  then show ?thesis
    using wrong by (simp add: active_session_def maybeSingle_def)
qed

lemma acknowledgeScan_wrong_secret:
  assumes dec: "decodeToken token = Some tokenData"
      and wrong: "js_get tokenData ''secret'' \<noteq> Some (JStr (s_qr_secret session))"
      and stored: "the_session st (s_id session) = Some session"
      and names: "js_get tokenData ''sessionId'' = Some sessionId"
      and sid: "js_String sessionId = s_id session"
  shows "acknowledgeScan token studentId now st
         = (Inl (if \<not> js_truthy sessionId then TokenMissingSessionID
                 else if s_status session = Active then InvalidQRToken
                 else SessionNotFoundOrExpired), st)"
proof -
  from names have nn: "tokenData \<noteq> JNull" by auto
  have t: "token_sessionId token
           = (if \<not> js_truthy sessionId then Inl TokenMissingSessionID else Inr (tokenData, sessionId))"
    using nn by (simp add: token_sessionId_def dec names)
  show ?thesis
    by (simp add: acknowledgeScan_def t active_session_wrong_secret [OF stored sid wrong])
qed

lemma verify_wrong_secret:
  assumes dec: "decodeToken (r_token req) = Some tokenData"
      and wrong: "js_get tokenData ''secret'' \<noteq> Some (JStr (s_qr_secret session))"
      and stored: "the_session st (s_id session) = Some session"
      and sid: "js_String_opt (r_sessionId req) = s_id session"
  shows "verify_session_and_token req now st
         = Inl (if s_status session \<noteq> Active then HttpError 400 ''Session is not active''
                else if now < s_start_time session \<or> now > s_end_time session
                then HttpError 400 ''Session not in valid time window''
                else HttpError 401 ''Invalid token'')"
proof -
  from stored have f: "single (filter (\<lambda>s. s_id s = js_String_opt (r_sessionId req)) (sessions st)) = Some session"
    by (simp add: the_session_def sid)
  show ?thesis
    using wrong by (simp add: verify_session_and_token_def Let_def f dec)
qed

text \<open>
  Claim C2 (token validity is secret-bound). Let a token decode to \<open>tokenData\<close> whose
  \<open>secret\<close> is not the current \<open>qr_secret\<close> of a stored session. \<open>acknowledgeScan\<close> with a
  token naming that session fails and leaves the store unchanged, with \<^verbatim>\<open>Invalid QR token\<close>
  whenever the session id is truthy and the session is active, inside or outside its
  window. \<^verbatim>\<open>submit-attendance\<close> for that session fails and leaves the store unchanged,
  with \<^verbatim>\<open>Invalid token\<close> whenever the request is authorised, the session is active and
  the clock is inside its window. No input makes either accept the token.
\<close>

theorem wrong_secret_rejected:
  assumes dec: "decodeToken token = Some tokenData"
      and wrong: "js_get tokenData ''secret'' \<noteq> Some (JStr (s_qr_secret session))"
      and stored: "the_session st (s_id session) = Some session"
  shows "(js_get tokenData ''sessionId'' = Some sessionId \<and> js_String sessionId = s_id session \<longrightarrow>
            (\<exists>e. acknowledgeScan token studentId now st = (Inl e, st))
            \<and> (js_truthy sessionId \<and> s_status session = Active \<longrightarrow>
                 acknowledgeScan token studentId now st = (Inl InvalidQRToken, st)))
       \<and> (r_token req = token \<and> js_String_opt (r_sessionId req) = s_id session \<longrightarrow>
            (\<exists>e. submit_attendance getUser req now st = (Inl e, st))
            \<and> (r_authHeader req \<noteq> None \<and> s_status session = Active
                 \<and> s_start_time session \<le> now \<and> now \<le> s_end_time session \<longrightarrow>
                 submit_attendance getUser req now st = (Inl (HttpError 401 ''Invalid token''), st)))"
proof (intro conjI impI)
  assume a: "js_get tokenData ''sessionId'' = Some sessionId \<and> js_String sessionId = s_id session"
  note ack = acknowledgeScan_wrong_secret [OF dec wrong stored conjunct1 [OF a] conjunct2 [OF a], of studentId now]
  show "\<exists>e. acknowledgeScan token studentId now st = (Inl e, st)"
    unfolding ack by blast
  assume "js_truthy sessionId \<and> s_status session = Active"
  then show "acknowledgeScan token studentId now st = (Inl InvalidQRToken, st)"
    unfolding ack by simp
next
  assume b: "r_token req = token \<and> js_String_opt (r_sessionId req) = s_id session"
  from b dec have dec': "decodeToken (r_token req) = Some tokenData" by simp
  note v = verify_wrong_secret [OF dec' wrong stored conjunct2 [OF b], of now]
  show "\<exists>e. submit_attendance getUser req now st = (Inl e, st)"
    by (cases "r_authHeader req") (simp_all add: submit_attendance_def v)
  assume "r_authHeader req \<noteq> None \<and> s_status session = Active
                 \<and> s_start_time session \<le> now \<and> now \<le> s_end_time session"
  then show "submit_attendance getUser req now st = (Inl (HttpError 401 ''Invalid token''), st)"
    by (cases "r_authHeader req") (simp_all add: submit_attendance_def v)
qed

lemma the_session_ex: "the_session (ex_store\<lparr>attendance := att\<rparr>) ''s1'' = Some ex_session"
  by (simp add: the_session_def single_def ex_store_def ex_session_def)

theorem wrong_secret_rejected_witness:
  "decodeToken (generateQRToken ''s1'' ''old'' 5000)
     = Some (JObj [(''sessionId'', JStr ''s1''), (''slotTime'', JNum 0), (''secret'', JStr ''old'')])
   \<and> s_qr_secret ex_session = ''k3y''
   \<and> the_session (ex_store\<lparr>attendance := ex_attendance\<rparr>) (s_id ex_session) = Some ex_session
   \<and> acknowledgeScan (generateQRToken ''s1'' ''old'' 5000) ''u2'' 6000 (ex_store\<lparr>attendance := ex_attendance\<rparr>)
       = (Inl InvalidQRToken, ex_store\<lparr>attendance := ex_attendance\<rparr>)
   \<and> submit_attendance ex_getUser (ex_request (generateQRToken ''s1'' ''old'' 5000) (Some (JBool True))) 6000
         (ex_store\<lparr>attendance := ex_attendance\<rparr>)
       = (Inl (HttpError 401 ''Invalid token''), ex_store\<lparr>attendance := ex_attendance\<rparr>)"
proof -
  let ?tokenData = "JObj [(''sessionId'', JStr ''s1''), (''slotTime'', JNum 0), (''secret'', JStr ''old'')]"
  let ?st = "ex_store\<lparr>attendance := ex_attendance\<rparr>"
  have dec: "decodeToken (generateQRToken ''s1'' ''old'' 5000) = Some ?tokenData"
    using decodeToken_generateQRToken [of "''s1''" "''old''" 5000] by simp
  have wrong: "js_get ?tokenData ''secret'' \<noteq> Some (JStr (s_qr_secret ex_session))"
    by (simp add: ex_session_def)
  have stored: "the_session ?st (s_id ex_session) = Some ex_session"
    using the_session_ex [of ex_attendance] by (simp add: ex_session_def)
  note t = wrong_secret_rejected [OF dec wrong stored, of "JStr ''s1''" "''u2''" 6000
             "ex_request (generateQRToken ''s1'' ''old'' 5000) (Some (JBool True))" ex_getUser]
  show ?thesis
    using t dec stored by (simp add: ex_session_def ex_request_def js_String_opt_def)
qed

subsection \<open>A record that is present\<close>

text \<open>
  \<open>acknowledgeScan\<close> never touches a record that is \<open>present\<close>, whatever the token, and
  answers a valid scan of a present student with \<^verbatim>\<open>You have already been marked present\<close>.
\<close>

lemma mark_pending_keeps_present:
  assumes r: "r \<in> set (attendance st)" and p: "a_status r = Present"
  shows "r \<in> set (attendance (snd (mark_pending sessionId studentId now st)))"
proof -
  let ?mine = "\<lambda>a. a_session_id a = js_String sessionId \<and> a_student_id a = studentId"
  let ?upd = "\<lambda>a. if ?mine a then a\<lparr>a_status := Pending, a_checkin_time := Some now\<rparr> else a"
  show ?thesis
  proof (cases "maybeSingle (filter ?mine (attendance st))")
    case (Inl e)
    with r show ?thesis by (simp add: mark_pending_def Let_def)
  next
    case (Inr found)
    show ?thesis
    proof (cases found)
      case None
      with Inr r show ?thesis
        by (cases sessionId)
           (simp_all add: mark_pending_def Let_def insert_attendance_def split: if_splits)
    next
      case (Some cur)
      show ?thesis
      proof (cases "a_status cur = Present")
        case True
        with Inr Some r show ?thesis by (simp add: mark_pending_def Let_def)
      next
        case False
        from Inr Some have one: "filter ?mine (attendance st) = [cur]"
          by (simp add: maybeSingle_def split: list.splits)
        have "\<not> ?mine r"
        proof
          assume "?mine r"
          with r have "r \<in> set (filter ?mine (attendance st))" by simp
          with one have "r = cur" by simp
          with p False show False by simp
        qed
        then have same: "?upd r = r" by (rule if_not_P)
        from r have "?upd r \<in> ?upd ` set (attendance st)" by (rule imageI)
        then have "r \<in> ?upd ` set (attendance st)" by (simp only: same)
        then have mem: "r \<in> set (map ?upd (attendance st))" by (simp only: set_map)
        have "attendance (snd (mark_pending sessionId studentId now st)) = map ?upd (attendance st)"
          using Inr Some False
          by (simp add: mark_pending_def Let_def split: sum.splits option.splits)
        with mem show ?thesis by simp
      qed
    qed
  qed
qed

lemma acknowledgeScan_keeps_present:
  assumes "r \<in> set (attendance st)" and "a_status r = Present"
  shows "r \<in> set (attendance (snd (acknowledgeScan token studentId now st)))"
proof (cases "token_sessionId token")
  case (Inl e)
  with assms show ?thesis by (simp add: acknowledgeScan_def)
next
  case (Inr pair)
  obtain tokenData sessionId where pair: "pair = (tokenData, sessionId)" by (cases pair)
  show ?thesis
  proof (cases "active_session tokenData sessionId now st")
    case (Inl e)
    with Inr pair assms show ?thesis by (simp add: acknowledgeScan_def)
  next
    case (Inr session)
    with \<open>token_sessionId token = Inr pair\<close> pair
    have "acknowledgeScan token studentId now st = mark_pending sessionId studentId now st"
      by (simp add: acknowledgeScan_def)
    with mark_pending_keeps_present [OF assms] show ?thesis by simp
  qed
qed

lemma acknowledgeScan_already_present:
  assumes stored: "the_session st sid = Some session"
      and sid: "sid \<noteq> []"
      and active: "s_status session = Active"
      and live: "now \<le> s_end_time session"
      and row: "filter (\<lambda>a. a_session_id a = sid \<and> a_student_id a = studentId) (attendance st) = [r]"
      and present: "a_status r = Present"
  shows "acknowledgeScan (generateQRToken sid (s_qr_secret session) t) studentId now st
         = (Inl AlreadyMarkedPresent, st)"
proof -
  let ?token = "generateQRToken sid (s_qr_secret session) t"
  have t: "token_sessionId ?token
           = Inr (JObj [(''sessionId'', JStr sid), (''slotTime'', JNum (t div 10000)),
                        (''secret'', JStr (s_qr_secret session))], JStr sid)"
    using sid by (simp add: token_sessionId_def decodeToken_generateQRToken)
  from stored have f: "filter (\<lambda>s. s_id s = sid) (sessions st) = [session]"
    by (simp add: the_session_def single_Some_iff)
  have "filter (\<lambda>s. s_id s = sid \<and> s_status s = Active) (sessions st) = [session]"
    unfolding filter_id_and f using active by simp
  then have a: "active_session (JObj [(''sessionId'', JStr sid), (''slotTime'', JNum (t div 10000)),
                        (''secret'', JStr (s_qr_secret session))]) (JStr sid) now st = Inr session"
    using live by (simp add: active_session_def maybeSingle_def)
  have m: "mark_pending (JStr sid) studentId now st = (Inl AlreadyMarkedPresent, st)"
    using row present by (simp add: mark_pending_def Let_def maybeSingle_def)
  show ?thesis
    by (simp add: acknowledgeScan_def t a m)
qed

text \<open>
  Claim C1 (present is sticky) holds for \<open>acknowledgeScan\<close> (the two lemmas above) and
  fails for \<^verbatim>\<open>submit-attendance\<close>, which has no such guard: student \<open>u1\<close> is
  \<open>present\<close>, submits a valid token with \<open>liveness = false\<close>, and the record goes back to
  \<open>pending\<close>.
\<close>

theorem present_regresses_to_pending:
  "map a_status ex_attendance = [Present, Pending, Absent]
   \<and> map a_status (attendance (snd (submit_attendance ex_getUser
          (ex_request (generateQRToken ''s1'' ''k3y'' 5000) (Some (JBool False))) 7000
          (ex_store\<lparr>attendance := ex_attendance\<rparr>))))
       = [Pending, Pending, Absent]"
  by code_simp

subsection \<open>The two mint paths\<close>

lemma decodeToken_secure_token:
  "decodeToken (btoa (JSON_stringify (JObj [(''sessionId'', JStr a), (''secret'', JStr b),
                                           (''timeSlot'', JNum i), (''timestamp'', JNum j)])))
   = Some (JObj [(''sessionId'', JStr a), (''secret'', JStr b), (''timeSlot'', JNum i), (''timestamp'', JNum j)])"
proof -
  let ?ms = "[(''sessionId'', JStr a), (''secret'', JStr b), (''timeSlot'', JNum i), (''timestamp'', JNum j)]"
  have "JSON_parse (JSON_stringify (JObj ?ms)) = Some (JObj ?ms)"
    by (rule JSON_parse_simple_object) simp_all
  then show ?thesis
    by (simp add: decodeToken_def atob_btoa del: JSON_stringify.simps)
qed

text \<open>
  Claim C9, as stated, fails: the mint paths do not share the rotation interval. At
  \<open>t = 1000 s\<close> the token of \<^verbatim>\<open>secure-qr-token\<close> decodes to \<open>timeSlot = 3\<close>, the slot of
  a 300-second interval, under another key and with a \<open>timestamp\<close>, while
  \<open>generateQRToken\<close> gives \<open>slotTime = 100 = floor(t / 10 s)\<close>.
\<close>

theorem rotation_interval_counterexample:
  "(case secure_qr_token (\<lambda>h. Some ''t1'') (\<lambda>u. Some Teacher) (Some ''Bearer t1'') (Some (JStr ''s1''))
           1000000 ex_store of
      Inl e \<Rightarrow> None
    | Inr ok \<Rightarrow> decodeToken (qt_token ok))
   = Some (JObj [(''sessionId'', JStr ''s1''), (''secret'', JStr ''k3y''),
                 (''timeSlot'', JNum 3), (''timestamp'', JNum 1000)])
   \<and> decodeToken (generateQRToken ''s1'' ''k3y'' 1000000)
   = Some (JObj [(''sessionId'', JStr ''s1''), (''slotTime'', JNum 100), (''secret'', JStr ''k3y'')])
   \<and> (1000000 :: int) div (10 * 1000) = 100"
  by code_simp

text \<open>
  Claim C9, amended. For every session id, secret and clock time, the token of
  \<open>generateQRToken\<close> decodes to exactly the session id, \<open>slotTime = floor(t / 10 s)\<close> and
  the secret. Whenever \<^verbatim>\<open>secure-qr-token\<close> answers with a token, the token decodes to the
  id and the secret of the stored session the request names, \<open>timeSlot = floor(t / 300 s)\<close>
  and \<open>timestamp = floor(t / 1 s)\<close>, and \<open>validUntil\<close> is the end of that 300-second slot.
\<close>

theorem token_round_trip:
  "decodeToken (generateQRToken sessionId qrSecret now)
     = Some (JObj [(''sessionId'', JStr sessionId), (''slotTime'', JNum (now div (10 * 1000))),
                   (''secret'', JStr qrSecret)])
   \<and> (secure_qr_token getUser role_of authHeader requested now st = Inr ok \<longrightarrow>
        (\<exists>session \<in> set (sessions st).
            s_id session = js_String_opt requested
            \<and> decodeToken (qt_token ok)
                = Some (JObj [(''sessionId'', JStr (s_id session)),
                              (''secret'', JStr (s_qr_secret session)),
                              (''timeSlot'', JNum (now div (300 * 1000))),
                              (''timestamp'', JNum (now div 1000))])
            \<and> qt_validUntil ok = (now div (300 * 1000) + 1) * (300 * 1000)))"
proof (intro conjI impI)
  show "decodeToken (generateQRToken sessionId qrSecret now)
     = Some (JObj [(''sessionId'', JStr sessionId), (''slotTime'', JNum (now div (10 * 1000))),
                   (''secret'', JStr qrSecret)])"
    using decodeToken_generateQRToken [of sessionId qrSecret now] by simp
next
  assume run: "secure_qr_token getUser role_of authHeader requested now st = Inr ok"
  have slot: "now div 1000 div 300 = now div 300000"
    by (simp add: div_mult2_eq [symmetric])
  from run obtain user session where
    found: "single (filter (\<lambda>s. s_id s = js_String_opt requested \<and> s_teacher_id s = user) (sessions st))
            = Some session"
    and ok: "ok = \<lparr>qt_token = btoa (JSON_stringify (JObj [(''sessionId'', JStr (s_id session)),
                                            (''secret'', JStr (s_qr_secret session)),
                                            (''timeSlot'', JNum (now div 300000)),
                                            (''timestamp'', JNum (now div 1000))])),
                   qt_sessionId = requested,
                   qt_validUntil = (now div 300000 + 1) * 300 * 1000\<rparr>"
    by (simp add: secure_qr_token_def Let_def slot split: option.splits if_splits
             del: JSON_stringify.simps)
  from found have "session \<in> set (filter (\<lambda>s. s_id s = js_String_opt requested \<and> s_teacher_id s = user) (sessions st))"
    by (simp add: single_Some_iff)
  then have mem: "session \<in> set (sessions st)" and sid: "s_id session = js_String_opt requested"
    by simp_all
  have "decodeToken (qt_token ok)
                = Some (JObj [(''sessionId'', JStr (s_id session)),
                              (''secret'', JStr (s_qr_secret session)),
                              (''timeSlot'', JNum (now div (300 * 1000))),
                              (''timestamp'', JNum (now div 1000))])"
    unfolding ok using decodeToken_secure_token [of "s_id session" "s_qr_secret session" "now div 300000" "now div 1000"]
    by (simp del: JSON_stringify.simps)
  moreover have "qt_validUntil ok = (now div (300 * 1000) + 1) * (300 * 1000)"
    unfolding ok by simp
  ultimately show "\<exists>session \<in> set (sessions st).
            s_id session = js_String_opt requested
            \<and> decodeToken (qt_token ok)
                = Some (JObj [(''sessionId'', JStr (s_id session)),
                              (''secret'', JStr (s_qr_secret session)),
                              (''timeSlot'', JNum (now div (300 * 1000))),
                              (''timestamp'', JNum (now div 1000))])
            \<and> qt_validUntil ok = (now div (300 * 1000) + 1) * (300 * 1000)"
    using mem sid by blast
qed

theorem token_round_trip_witness:
  "secure_qr_token (\<lambda>h. Some ''t1'') (\<lambda>u. Some Teacher) (Some ''Bearer t1'') (Some (JStr ''s1''))
     1000000 ex_store
   = Inr \<lparr>qt_token = ''eyJzZXNzaW9uSWQiOiJzMSIsInNlY3JldCI6ImszeSIsInRpbWVTbG90IjozLCJ0aW1lc3RhbXAiOjEwMDB9'',
          qt_sessionId = Some (JStr ''s1''), qt_validUntil = 1200000\<rparr>
   \<and> decodeToken ''eyJzZXNzaW9uSWQiOiJzMSIsInNlY3JldCI6ImszeSIsInRpbWVTbG90IjozLCJ0aW1lc3RhbXAiOjEwMDB9''
   = Some (JObj [(''sessionId'', JStr ''s1''), (''secret'', JStr ''k3y''),
                 (''timeSlot'', JNum 3), (''timestamp'', JNum 1000)])"
proof -
  let ?ok = "\<lparr>qt_token = ''eyJzZXNzaW9uSWQiOiJzMSIsInNlY3JldCI6ImszeSIsInRpbWVTbG90IjozLCJ0aW1lc3RhbXAiOjEwMDB9'',
          qt_sessionId = Some (JStr ''s1''), qt_validUntil = 1200000\<rparr>"
  have run: "secure_qr_token (\<lambda>h. Some ''t1'') (\<lambda>u. Some Teacher) (Some ''Bearer t1'') (Some (JStr ''s1''))
     1000000 ex_store = Inr ?ok"
    by code_simp
  have ss: "sessions ex_store = [ex_session]"
    by (simp add: ex_store_def)
  from token_round_trip [of "''s1''" "''k3y''" 1000000 "\<lambda>h. Some ''t1''" "\<lambda>u. Some Teacher"
         "Some ''Bearer t1''" "Some (JStr ''s1'')" ex_store ?ok] run
  have "\<exists>session \<in> set (sessions ex_store).
            s_id session = js_String_opt (Some (JStr ''s1''))
            \<and> decodeToken (qt_token ?ok)
                = Some (JObj [(''sessionId'', JStr (s_id session)),
                              (''secret'', JStr (s_qr_secret session)),
                              (''timeSlot'', JNum (1000000 div (300 * 1000))),
                              (''timestamp'', JNum (1000000 div 1000))])
            \<and> qt_validUntil ?ok = (1000000 div (300 * 1000) + 1) * (300 * 1000)"
    by blast
  then show ?thesis
    using run by (simp add: ss ex_session_def)
qed

end
